theory Spec2Isabelle
  imports Main "HOL-Library.Word" "HOL-Library.Sublist"
begin

section \<open>JavaScript strings\<close>

text \<open>
  A JavaScript string is a sequence of UTF-16 code units; \<open>length\<close>, \<open>indexOf\<close>,
  \<open>slice\<close> and \<open>trim\<close> all count code units. A string is therefore a list of
  16-bit words, and an ASCII literal of the source is written \<open>lit ''...''\<close>.
\<close>

type_synonym jsstring = "16 word list"

definition lit :: "string \<Rightarrow> jsstring" where
  "lit s = map of_char s"

text \<open>
  ECMAScript white space as \<open>String.prototype.trim\<close> and the regular expression class
  \<open>\s\<close> read it: TAB, LF, VT, FF, CR, SPACE, NBSP, U+1680, U+2000 to U+200A, U+2028,
  U+2029, U+202F, U+205F, U+3000 and U+FEFF.
\<close>

definition isWhiteSpace :: "16 word \<Rightarrow> bool" where
  "isWhiteSpace c =
     (c = 9 \<or> c = 10 \<or> c = 11 \<or> c = 12 \<or> c = 13 \<or> c = 32 \<or> c = 160 \<or> c = 5760 \<or>
      (8192 \<le> c \<and> c \<le> 8202) \<or> c = 8232 \<or> c = 8233 \<or> c = 8239 \<or> c = 8287 \<or>
      c = 12288 \<or> c = 65279)"

definition trim :: "jsstring \<Rightarrow> jsstring" where
  "trim s = rev (dropWhile isWhiteSpace (rev (dropWhile isWhiteSpace s)))"

text \<open>\<open>[a, b, ...].join('\n')\<close>.\<close>

fun joinLines :: "jsstring list \<Rightarrow> jsstring" where
  "joinLines [] = []"
| "joinLines [x] = x"
| "joinLines (x # y # ys) = x @ [10] @ joinLines (y # ys)"

text \<open>
  \<open>s.indexOf(needle, from)\<close>: the least index at or after \<open>from\<close> where \<open>needle\<close>
  starts, and \<open>-1\<close> when there is none.
\<close>

fun indexOfAux :: "jsstring \<Rightarrow> jsstring \<Rightarrow> nat \<Rightarrow> int" where
  "indexOfAux needle [] k = (if needle = [] then int k else -1)"
| "indexOfAux needle (c # cs) k =
     (if prefix needle (c # cs) then int k else indexOfAux needle cs (Suc k))"

definition indexOfFrom :: "jsstring \<Rightarrow> jsstring \<Rightarrow> nat \<Rightarrow> int" where
  "indexOfFrom s needle from =
     (let k = min from (length s) in indexOfAux needle (drop k s) k)"

definition indexOf :: "jsstring \<Rightarrow> jsstring \<Rightarrow> int" where
  "indexOf s needle = indexOfFrom s needle 0"

text \<open>
  \<open>s.slice(0, n)\<close> and \<open>s.slice(n)\<close> for the arguments the source passes, which are
  never negative; both clamp at the length of the string.
\<close>

definition sliceTo :: "jsstring \<Rightarrow> int \<Rightarrow> jsstring" where
  "sliceTo s n = take (nat n) s"

definition sliceFrom :: "jsstring \<Rightarrow> int \<Rightarrow> jsstring" where
  "sliceFrom s n = drop (nat n) s"

text \<open>
  \<open>String.prototype.toLowerCase\<close>. The source only searches the lowered string for the
  ASCII needles \<open></head>\<close> and \<open><body\<close>, so what matters is which code units become
  ASCII letters and how many units each one yields: \<open>A\<close> to \<open>Z\<close> become \<open>a\<close> to
  \<open>z\<close>, U+212A (KELVIN SIGN) becomes \<open>k\<close>, and U+0130 (LATIN CAPITAL LETTER I WITH DOT
  ABOVE) becomes the two units \<open>i\<close>, U+0307. Every other unit that Unicode lowers stays
  outside ASCII and keeps its length, and is left as it is here.
\<close>

definition lowerUnit :: "16 word \<Rightarrow> jsstring" where
  "lowerUnit c =
     (if 65 \<le> c \<and> c \<le> 90 then [c + 32]
      else if c = 304 then [105, 775]
      else if c = 8490 then [107]
      else [c])"

definition toLowerCase :: "jsstring \<Rightarrow> jsstring" where
  "toLowerCase s = concat (map lowerUnit s)"

section \<open>Cleaning the generator's answer\<close>

text \<open>
  \<^verbatim>\<open>
  private sanitizeHtmlResponse(raw: string): string {
    let cleaned = raw.trim();
    cleaned = cleaned.replace(/^```\s*html\s*/i, '').replace(/^```/, '');
    cleaned = cleaned.replace(/```\s*$/i, '').trim();
    return cleaned;
  }
  \<close>
  Each \<open>replace\<close> has a regular expression without the \<open>g\<close> flag, so it rewrites the
  leftmost match only. The \<open>i\<close> flag compares code units after the Canonicalize
  operation of the language, which never maps a unit outside ASCII to an ASCII one;
  for the pattern \<open>html\<close> it is enough to fold \<open>a\<close> to \<open>z\<close> onto \<open>A\<close> to \<open>Z\<close>.
\<close>

definition fence :: jsstring where
  "fence = [96, 96, 96]"

definition canonicalize :: "16 word \<Rightarrow> 16 word" where
  "canonicalize c = (if 97 \<le> c \<and> c \<le> 122 then c - 32 else c)"

definition matchesHtml :: "jsstring \<Rightarrow> bool" where
  "matchesHtml s = (map canonicalize (take 4 s) = [72, 84, 77, 76])"

text \<open>\<open>replace(/^```\s*html\s*/i, '')\<close>\<close>

definition stripTaggedFence :: "jsstring \<Rightarrow> jsstring" where
  "stripTaggedFence s =
     (if prefix fence s then
        (let r = dropWhile isWhiteSpace (drop 3 s) in
         if matchesHtml r then dropWhile isWhiteSpace (drop 4 r) else s)
      else s)"

text \<open>\<open>replace(/^```/, '')\<close>\<close>

definition stripLeadingFence :: "jsstring \<Rightarrow> jsstring" where
  "stripLeadingFence s = (if prefix fence s then drop 3 s else s)"

text \<open>
  \<open>replace(/```\s*$/i, '')\<close>: without the \<open>m\<close> flag \<open>$\<close> is the end of the input, so
  a match is a fence followed by white space only, and the leftmost one is removed
  together with everything after it.
\<close>

fun stripTrailingFence :: "jsstring \<Rightarrow> jsstring" where
  "stripTrailingFence [] = []"
| "stripTrailingFence (c # cs) =
     (if prefix fence (c # cs) \<and> list_all isWhiteSpace (drop 3 (c # cs)) then []
      else c # stripTrailingFence cs)"

definition sanitizeHtmlResponse :: "jsstring \<Rightarrow> jsstring" where
  "sanitizeHtmlResponse raw =
     trim (stripTrailingFence (stripLeadingFence (stripTaggedFence (trim raw))))"

text \<open>
  The predicates and the wrapper used to state what cleaning does: a string is
  \<open>trimmed\<close> when it neither starts nor ends with white space, and \<open>wrapInFence\<close>
  puts an artifact between a leading fence, an optional language tag, and a trailing
  fence, with the white space \<open>w1\<close> and \<open>w2\<close> around the artifact.
\<close>

definition trimmed :: "jsstring \<Rightarrow> bool" where
  "trimmed a = (a = [] \<or> (\<not> isWhiteSpace (hd a) \<and> \<not> isWhiteSpace (last a)))"

definition wrapInFence :: "jsstring \<Rightarrow> jsstring \<Rightarrow> jsstring \<Rightarrow> jsstring \<Rightarrow> jsstring" where
  "wrapInFence tag w1 w2 a = fence @ tag @ w1 @ a @ w2 @ fence"

section \<open>The bridge and its injection\<close>

text \<open>
  The client script that \<open>injectApiBridge\<close> puts into every artifact, as the template
  literal of the source spells it (it starts with a line break, and a line break
  separates its two script elements).
\<close>

definition bridge :: jsstring where
  "bridge =
     lit ''\<newline>'' @
     lit ''<script>(function(){window.apiRequest=function(u){'' @
     lit ''return new Promise((res,rej)=>{const id='req_'+Date.now()+'_'+Math.random().toString(36).substr'' @
     lit ''(2,9);function h(e){const d=e.data;if(d&&d.type==='API_RESPONSE'&&d.requestId===id){'' @
     lit ''window.removeEventListener('message',h);d.error?rej(new Error(d.error)):res(d.data);'' @
     lit ''}}window.addEventListener('message',h);window.parent.postMessage({'' @
     lit ''type:'API_REQUEST',requestId:id,url:u},'*');setTimeout(()=>{'' @
     lit ''window.removeEventListener('message',h);rej(new Error('API request timeout'));'' @
     lit ''},3e4);});};})();</script>\<newline>'' @
     lit ''<script>window.addEventListener('error',e=>{window.parent.postMessage({'' @
     lit ''type:'IFRAME_ERROR',message:e.message,stack:e.error&&e.error.stack}'' @
     lit '','*');});window.addEventListener('unhandledrejection',e=>{'' @
     lit ''window.parent.postMessage({type:'IFRAME_ERROR',message:e.reason?e.reason.message||String(e.reas'' @
     lit ''on):'Unhandled rejection',stack:e.reason&&e.reason.stack}'' @
     lit '','*');});</script>''"

text \<open>
  \<^verbatim>\<open>
  const headClose = htmlContent.toLowerCase().indexOf('</head>');
  if (headClose !== -1)
    return htmlContent.slice(0, headClose) + bridge + htmlContent.slice(headClose);
  const bodyOpen = htmlContent.toLowerCase().indexOf('<body');
  if (bodyOpen !== -1) {
    const bodyTagEnd = htmlContent.indexOf('>', bodyOpen) + 1;
    return htmlContent.slice(0, bodyTagEnd) + bridge + htmlContent.slice(bodyTagEnd);
  }
  return bridge + htmlContent;
  \<close>
  The positions are found in the lowered string and used in the original one.
\<close>

definition injectApiBridge :: "jsstring \<Rightarrow> jsstring" where
  "injectApiBridge htmlContent =
     (let headClose = indexOf (toLowerCase htmlContent) (lit ''</head>'') in
      if headClose \<noteq> -1 then
        sliceTo htmlContent headClose @ bridge @ sliceFrom htmlContent headClose
      else
        (let bodyOpen = indexOf (toLowerCase htmlContent) (lit ''<body'') in
         if bodyOpen \<noteq> -1 then
           (let bodyTagEnd = indexOfFrom htmlContent (lit ''>'') (nat bodyOpen) + 1 in
            sliceTo htmlContent bodyTagEnd @ bridge @ sliceFrom htmlContent bodyTagEnd)
         else bridge @ htmlContent))"

text \<open>
  Where the bridge ends up: \<open>bridgeOffset\<close> is the number of code units of the
  artifact that precede the bridge in the result of \<open>injectApiBridge\<close>.
\<close>

definition bridgeOffset :: "jsstring \<Rightarrow> nat" where
  "bridgeOffset htmlContent =
     (let headClose = indexOf (toLowerCase htmlContent) (lit ''</head>'') in
      if headClose \<noteq> -1 then min (nat headClose) (length htmlContent)
      else
        (let bodyOpen = indexOf (toLowerCase htmlContent) (lit ''<body'') in
         if bodyOpen \<noteq> -1 then
           min (nat (indexOfFrom htmlContent (lit ''>'') (nat bodyOpen) + 1)) (length htmlContent)
         else 0))"

text \<open>
  Occurrences of a needle in a string, to say where the bridge goes: the needle occurs
  at \<open>i\<close> when the string continues with it from position \<open>i\<close> on, it occurs first at
  \<open>i\<close> when it occurs at no earlier position, and it is absent when it occurs nowhere.
\<close>

definition occursAt :: "jsstring \<Rightarrow> jsstring \<Rightarrow> nat \<Rightarrow> bool" where
  "occursAt needle s i = prefix needle (drop i s)"

definition firstAt :: "jsstring \<Rightarrow> jsstring \<Rightarrow> nat \<Rightarrow> bool" where
  "firstAt needle s i = (occursAt needle s i \<and> (\<forall>j<i. \<not> occursAt needle s j))"

definition absent :: "jsstring \<Rightarrow> jsstring \<Rightarrow> bool" where
  "absent needle s = (\<forall>i. \<not> occursAt needle s i)"

text \<open>
  A generated script runs before the bridge is installed when its opening tag stands
  in the part of the artifact that precedes the bridge.
\<close>

definition scriptBeforeBridge :: "jsstring \<Rightarrow> bool" where
  "scriptBeforeBridge htmlContent =
     sublist (lit ''<script'') (toLowerCase (take (bridgeOffset htmlContent) htmlContent))"

text \<open>
  Lowering keeps every position exactly when the string holds no U+0130, the one code
  unit that \<open>toLowerCase\<close> turns into two.
\<close>

definition lowersInPlace :: "jsstring \<Rightarrow> bool" where
  "lowersInPlace s = (304 \<notin> set s)"

section \<open>The bridge client inside the sandboxed document\<close>

text \<open>
  The first script element of the bridge defines \<open>window.apiRequest(u)\<close>. It returns a
  promise and, for one call,
  \<^item> builds the correlation id \<open>'req_' + Date.now() + '_' + random\<close>,
  \<^item> registers the message listener \<open>h\<close>,
  \<^item> posts \<open>{type: 'API_REQUEST', requestId: id, url: u}\<close> to the parent,
  \<^item> arms \<open>setTimeout(..., 3e4)\<close>, whose callback removes \<open>h\<close> and rejects with
    \<open>new Error('API request timeout')\<close>.
  The listener \<open>h\<close> reacts to a message whose data is truthy, has the type
  \<open>'API_RESPONSE'\<close> and the same id: it removes itself and settles the promise,
  rejecting with \<open>new Error(d.error)\<close> when \<open>d.error\<close> is truthy and resolving with
  \<open>d.data\<close> otherwise. A promise settles once; a later \<open>res\<close> or \<open>rej\<close> does nothing.

  The wall clock is not part of the model: the timer is an event of the sandboxed
  document's event loop, armed with the delay the script gives it, and a run is the
  list of events in the order the loop delivers them.
\<close>

datatype 'a promiseState = Pending | Fulfilled 'a | Rejected jsstring

record 'a frameMessage =
  messageType :: jsstring
  messageRequestId :: jsstring
  messageData :: 'a
  messageError :: "jsstring option"

datatype 'a frameEvent = MessageEvent "'a frameMessage option" | TimerFired

record 'a bridgeCall =
  correlationId :: jsstring
  listenerRegistered :: bool
  promise :: "'a promiseState"
  timeoutMs :: nat

record bridgeRequest =
  requestType :: jsstring
  requestId :: jsstring
  requestUrl :: jsstring

definition settle :: "'a promiseState \<Rightarrow> 'a promiseState \<Rightarrow> 'a promiseState" where
  "settle p v = (if p = Pending then v else p)"

text \<open>The state of a call right after \<open>apiRequest(u)\<close> returned, and the message it posted.\<close>

definition apiRequestCall :: "jsstring \<Rightarrow> jsstring \<Rightarrow> 'a bridgeCall \<times> bridgeRequest" where
  "apiRequestCall ident u =
     (\<lparr>correlationId = ident, listenerRegistered = True, promise = Pending, timeoutMs = 30000\<rparr>,
      \<lparr>requestType = lit ''API_REQUEST'', requestId = ident, requestUrl = u\<rparr>)"

definition isMatchingResponse :: "jsstring \<Rightarrow> 'a frameMessage option \<Rightarrow> bool" where
  "isMatchingResponse ident d =
     (case d of
        None \<Rightarrow> False
      | Some m \<Rightarrow> messageType m = lit ''API_RESPONSE'' \<and> messageRequestId m = ident)"

definition truthy :: "jsstring option \<Rightarrow> bool" where
  "truthy v = (case v of None \<Rightarrow> False | Some s \<Rightarrow> s \<noteq> [])"

fun bridgeStep :: "'a bridgeCall \<Rightarrow> 'a frameEvent \<Rightarrow> 'a bridgeCall" where
  "bridgeStep c (MessageEvent d) =
     (if listenerRegistered c \<and> isMatchingResponse (correlationId c) d then
        (case d of
           None \<Rightarrow> c
         | Some m \<Rightarrow>
             c\<lparr>listenerRegistered := False,
               promise :=
                 settle (promise c)
                   (if truthy (messageError m)
                    then Rejected (case messageError m of Some e \<Rightarrow> e | None \<Rightarrow> [])
                    else Fulfilled (messageData m))\<rparr>)
      else c)"
| "bridgeStep c TimerFired =
     c\<lparr>listenerRegistered := False,
       promise := settle (promise c) (Rejected (lit ''API request timeout''))\<rparr>"

definition bridgeRun :: "'a bridgeCall \<Rightarrow> 'a frameEvent list \<Rightarrow> 'a bridgeCall" where
  "bridgeRun c events = foldl bridgeStep c events"

definition deliversMatch :: "jsstring \<Rightarrow> 'a frameEvent \<Rightarrow> bool" where
  "deliversMatch ident e =
     (case e of MessageEvent d \<Rightarrow> isMatchingResponse ident d | TimerFired \<Rightarrow> False)"

section \<open>Prompts\<close>

text \<open>
  The two template literals, cut at their interpolations. The bullet of the
  requirement lists is U+2022 and the dash of the first requirement is U+2013.
\<close>

definition visualizationPromptHead :: jsstring where
  "visualizationPromptHead =
     lit ''You are an expert front-end engineer who creates data visualizations.\<newline>'' @
     lit ''\<newline>'' @
     lit ''USER REQUEST:\<newline>'' @
     [34]"

definition visualizationPromptMiddle :: jsstring where
  "visualizationPromptMiddle =
     [34] @
     lit ''\<newline>'' @
     lit ''\<newline>'' @
     lit ''AVAILABLE API ENDPOINTS (OpenAPI-like schema):\<newline>''"

definition visualizationPromptTail :: jsstring where
  "visualizationPromptTail =
     lit ''\<newline>'' @
     lit ''\<newline>'' @
     lit ''TASK:\<newline>'' @
     lit ''Generate a COMPLETE, self-contained HTML document (including CSS & JavaScript) '' @
     lit ''that satisfies the user's request by fetching data from the listed API '' @
     lit ''endpoints. Use Chart.js (CDN: https://cdn.jsdelivr.net/npm/chart.js) or '' @
     lit ''native web technologies.\<newline>'' @
     lit ''\<newline>'' @
     lit ''REQUIREMENTS (IMPORTANT):\<newline>'' @
     [8226] @
     lit '' Return ONLY HTML/JS/CSS code '' @
     [8211] @
     lit '' no markdown, explanations or extra text.\<newline>'' @
     [8226] @
     lit '' Include professional, responsive styling.\<newline>'' @
     [8226] @
     lit '' Use the provided global function `apiRequest(url)` for all data calls '' @
     lit ''(see usage example below).\<newline>'' @
     [8226] @
     lit '' Handle loading states & errors gracefully within the HTML.\<newline>'' @
     [8226] @
     lit '' Do NOT violate browser sandbox restrictions.\<newline>'' @
     [8226] @
     lit '' Try to use all the available space for the diagram do NOT set max height '' @
     lit ''or width.\<newline>'' @
     lit ''\<newline>'' @
     lit ''EXAMPLE API USAGE:\<newline>'' @
     lit ''```js\<newline>'' @
     lit ''async function loadData() {\<newline>'' @
     lit ''  const data = await apiRequest('/api/your-endpoint');'' @
     lit ''\<newline>'' @
     lit ''  console.log(data);\<newline>'' @
     lit ''}\<newline>'' @
     lit ''```\<newline>'' @
     lit ''\<newline>'' @
     lit ''Return the finished HTML document now.''"

definition improvementPromptHead :: jsstring where
  "improvementPromptHead =
     lit ''You are provided with an EXISTING visualization (full HTML) generated '' @
     lit ''earlier plus the complete history of user requests. Improve the visualization '' @
     lit ''to satisfy the LATEST request while preserving prior context and functionality.\<newline>'' @
     lit ''\<newline>'' @
     lit ''AVAILABLE API ENDPOINTS:\<newline>''"

definition improvementPromptCodeStart :: jsstring where
  "improvementPromptCodeStart =
     lit ''\<newline>'' @
     lit ''\<newline>'' @
     lit ''EXISTING VISUALIZATION CODE START\<newline>''"

definition improvementPromptCodeEnd :: jsstring where
  "improvementPromptCodeEnd =
     lit ''\<newline>'' @
     lit ''EXISTING VISUALIZATION CODE END\<newline>'' @
     lit ''\<newline>'' @
     lit ''FULL USER REQUEST HISTORY:\<newline>''"

definition improvementPromptTail :: jsstring where
  "improvementPromptTail =
     lit ''\<newline>'' @
     lit ''\<newline>'' @
     lit ''REQUIREMENTS:\<newline>'' @
     [8226] @
     lit '' Return ONLY HTML/JS/CSS code (no explanations).\<newline>'' @
     [8226] @
     lit '' Produce a FULL HTML document that can replace the previous one.\<newline>'' @
     [8226] @
     lit '' Continue to use the global `apiRequest(url)` helper for data access.\<newline>'' @
     [8226] @
     lit '' Keep styling modern and responsive.\<newline>'' @
     [8226] @
     lit '' Gracefully handle loading and error states.''"

definition buildVisualizationPrompt :: "jsstring \<Rightarrow> jsstring \<Rightarrow> jsstring" where
  "buildVisualizationPrompt apiDesc userMessage =
     visualizationPromptHead @ userMessage @ visualizationPromptMiddle @ apiDesc @
     visualizationPromptTail"

text \<open>
  \<open>[this.originalPrompt, ...this.improvementPrompts].filter(Boolean).join('\n')\<close>:
  \<open>filter(Boolean)\<close> drops \<open>null\<close> and the empty string.
\<close>

definition promptHistory :: "jsstring option \<Rightarrow> jsstring list \<Rightarrow> jsstring" where
  "promptHistory original improvements =
     joinLines
       (filter (\<lambda>p. p \<noteq> [])
          ((case original of None \<Rightarrow> [] | Some p \<Rightarrow> [p]) @ improvements))"

definition buildImprovementPrompt ::
  "jsstring \<Rightarrow> jsstring option \<Rightarrow> jsstring list \<Rightarrow> jsstring \<Rightarrow> jsstring" where
  "buildImprovementPrompt apiDesc original improvements existingCode =
     improvementPromptHead @ apiDesc @ improvementPromptCodeStart @ existingCode @
     improvementPromptCodeEnd @ promptHistory original improvements @ improvementPromptTail"

section \<open>The widget\<close>

subsection \<open>Data\<close>

datatype VisualizationState = IDLE | GENERATING | DISPLAYING | ERROR

datatype ErrorType =
    CONTAINER_NOT_FOUND
  | INVALID_API_DESCRIPTION
  | CHAT_COMPLETION_FAILED
  | API_REQUEST_FAILED
  | IFRAME_COMMUNICATION_FAILED
  | INVALID_HTML_RESPONSE

text \<open>
  What a \<open>throw\<close> or a rejected promise carries. The source asks of such a value only
  whether it is an \<open>Error\<close> instance and, if so, for its message; the widget's own
  \<open>AIDataVisualizationError\<close> extends \<open>Error\<close> with an error type.
\<close>

datatype thrown =
    ErrorObject jsstring
  | AIDataVisualizationError ErrorType jsstring
  | NonError

fun instanceofError :: "thrown \<Rightarrow> bool" where
  "instanceofError (ErrorObject m) = True"
| "instanceofError (AIDataVisualizationError t m) = True"
| "instanceofError NonError = False"

fun errorMessageOf :: "thrown \<Rightarrow> jsstring" where
  "errorMessageOf (ErrorObject m) = m"
| "errorMessageOf (AIDataVisualizationError t m) = m"
| "errorMessageOf NonError = []"

text \<open>
  A host callback that returns a promise either returns one that resolves, returns one
  that rejects, or throws before returning. A promise of the widget's own settles as
  \<open>Resolved\<close> or \<open>RejectedWith\<close>.
\<close>

datatype 'a callOutcome = Resolves 'a | Rejects thrown | Throws thrown

datatype settlement = Resolved | RejectedWith thrown

record VisualizationHistoryItem =
  prompt :: jsstring
  html :: jsstring
  timestamp :: nat

text \<open>
  The record under the key \<open>aiDataVizHistory\<close> of \<open>localStorage\<close>: missing, text
  that \<open>JSON.parse\<close> rejects, or the list that the widget wrote.
\<close>

datatype storedHistory = Missing | Unparsable | Stored "VisualizationHistoryItem list"

datatype themeName = Light | Dark | Auto

datatype containerRef = Selector jsstring | Element

text \<open>
  The configuration. A callback that is missing or not a function is \<open>None\<close>. The
  completion and the fetch callback are functions of their argument; \<open>onError\<close> returns
  normally (\<open>None\<close>) or throws.
\<close>

record AIDataVisualizationConfig =
  container :: containerRef
  apiDescription :: jsstring
  chatCompletion :: "(jsstring \<Rightarrow> jsstring callOutcome) option"
  apiRequest :: "(jsstring \<Rightarrow> jsstring callOutcome) option"
  onError :: "(thrown \<Rightarrow> thrown option) option"
  themeOption :: "themeName option"
  className :: "jsstring option"

record ApiResponseData =
  responseRequestId :: jsstring
  responseData :: "jsstring option"
  responseError :: "jsstring option"

record IframeMessage =
  fromIframe :: bool
  iframeMessageType :: jsstring
  iframeRequestId :: "jsstring option"
  iframeUrl :: "jsstring option"
  iframeMessageText :: "jsstring option"

text \<open>
  The instance: the private fields of the class, the parts of its DOM subtree that the
  modelled methods read or write, the durable record, and three logs of what the
  instance handed to the outside (the prompts given to the completion callback, the
  values given to \<open>onError\<close>, the messages posted to the sandboxed document).
  \<open>mounted\<close> says that the subtree built by \<open>createHTML\<close> is still in the container;
  \<open>storageFails\<close> says that \<open>localStorage\<close> throws on every access.
\<close>

record widget =
  state :: VisualizationState
  iframe :: bool
  lastGeneratedCode :: "jsstring option"
  originalPrompt :: "jsstring option"
  improvementPrompts :: "jsstring list"
  inputCollapsed :: bool
  history :: "VisualizationHistoryItem list"
  activeHistoryIndex :: "nat option"
  currentTheme :: themeName
  listening :: bool
  mounted :: bool
  textareaValue :: jsstring
  textareaDisabled :: bool
  generateBtnDisabled :: bool
  btnText :: jsstring
  spinnerShown :: bool
  errorShown :: bool
  errorText :: jsstring
  visualizationShown :: bool
  clearBtnShown :: bool
  promptSummaryShown :: bool
  promptText :: jsstring
  srcdoc :: jsstring
  storageFails :: bool
  localStorage :: storedHistory
  promptsSent :: "jsstring list"
  errorsReported :: "thrown list"
  messagesPosted :: "ApiResponseData list"

text \<open>
  Reading a property of \<open>null\<close> throws a \<open>TypeError\<close>: what every method that starts
  with a \<open>querySelector\<close> does once the subtree is gone. Calling a value that is not a
  function throws one as well. The message of such an error depends on the engine and
  on the property; the model keeps one text for each of the two kinds.
\<close>

definition nullPropertyError :: thrown where
  "nullPropertyError = ErrorObject (lit ''Cannot read properties of null'')"

definition notCallableError :: thrown where
  "notCallableError = ErrorObject (lit ''callback is not a function'')"

subsection \<open>Construction\<close>

text \<open>
  \<open>resolveContainer\<close>, \<open>validateConfig\<close>, \<open>initialize\<close>, in the constructor's order.
  \<open>found\<close> tells which selectors \<open>document.querySelector\<close> resolves.
\<close>

definition resolveContainer :: "(jsstring \<Rightarrow> bool) \<Rightarrow> containerRef \<Rightarrow> thrown option" where
  "resolveContainer found c =
     (case c of
        Selector sel \<Rightarrow>
          if found sel then None
          else Some (AIDataVisualizationError CONTAINER_NOT_FOUND
                       (lit ''Container element not found: '' @ sel))
      | Element \<Rightarrow> None)"

definition validateConfig :: "AIDataVisualizationConfig \<Rightarrow> thrown option" where
  "validateConfig cfg =
     (if apiDescription cfg = [] then
        Some (AIDataVisualizationError INVALID_API_DESCRIPTION (lit ''API description is required''))
      else if chatCompletion cfg = None then
        Some (AIDataVisualizationError CHAT_COMPLETION_FAILED
                (lit ''chatCompletion must be a function''))
      else if apiRequest cfg = None then
        Some (AIDataVisualizationError API_REQUEST_FAILED (lit ''apiRequest must be a function''))
      else None)"

text \<open>
  \<open>loadHistory\<close>: \<open>try { const raw = localStorage.getItem(KEY); if (raw) this.history =
  JSON.parse(raw); } catch {}\<close>
\<close>

definition loadHistory :: "bool \<Rightarrow> storedHistory \<Rightarrow> VisualizationHistoryItem list" where
  "loadHistory fails stored =
     (if fails then []
      else case stored of Missing \<Rightarrow> [] | Unparsable \<Rightarrow> [] | Stored items \<Rightarrow> items)"

definition initialWidget :: "AIDataVisualizationConfig \<Rightarrow> bool \<Rightarrow> storedHistory \<Rightarrow> widget" where
  "initialWidget cfg fails stored =
     \<lparr>state = IDLE,
      iframe = False,
      lastGeneratedCode = None,
      originalPrompt = None,
      improvementPrompts = [],
      inputCollapsed = False,
      history = loadHistory fails stored,
      activeHistoryIndex = None,
      currentTheme = (case themeOption cfg of None \<Rightarrow> Light | Some t \<Rightarrow> t),
      listening = True,
      mounted = True,
      textareaValue = [],
      textareaDisabled = False,
      generateBtnDisabled = True,
      btnText = lit ''Generate Visualization'',
      spinnerShown = False,
      errorShown = False,
      errorText = [],
      visualizationShown = False,
      clearBtnShown = False,
      promptSummaryShown = False,
      promptText = [],
      srcdoc = [],
      storageFails = fails,
      localStorage = stored,
      promptsSent = [],
      errorsReported = [],
      messagesPosted = []\<rparr>"

definition create ::
  "(jsstring \<Rightarrow> bool) \<Rightarrow> bool \<Rightarrow> storedHistory \<Rightarrow> AIDataVisualizationConfig \<Rightarrow> thrown + widget" where
  "create found fails stored cfg =
     (case resolveContainer found (container cfg) of
        Some e \<Rightarrow> Inl e
      | None \<Rightarrow>
          (case validateConfig cfg of
             Some e \<Rightarrow> Inl e
           | None \<Rightarrow> Inr (initialWidget cfg fails stored)))"

subsection \<open>State and display\<close>

text \<open>
  \<^verbatim>\<open>
  private setState(state: VisualizationState): void {
    const generateBtn = ...; const btnText = ...; const btnSpinner = ...; const textarea = ...;
    switch (state) {
      case VisualizationState.GENERATING:
        generateBtn.disabled = true; btnText.textContent = 'Generating...';
        btnSpinner.style.display = 'block'; textarea.disabled = true; break;
      case VisualizationState.DISPLAYING:
        generateBtn.disabled = !textarea.value.trim();
        btnText.textContent = 'Improve Visualization';
        btnSpinner.style.display = 'none'; textarea.disabled = false; break;
      case VisualizationState.IDLE:
      case VisualizationState.ERROR:
        generateBtn.disabled = !textarea.value.trim();
        btnText.textContent = 'Generate Visualization';
        btnSpinner.style.display = 'none'; textarea.disabled = false; break;
    }
  }
  \<close>
  The method writes the controls and nothing else: it holds no assignment to
  \<open>this.state\<close>.
\<close>

fun setState :: "VisualizationState \<Rightarrow> widget \<Rightarrow> widget" where
  "setState GENERATING w =
     w\<lparr>generateBtnDisabled := True, btnText := lit ''Generating...'',
       spinnerShown := True, textareaDisabled := True\<rparr>"
| "setState DISPLAYING w =
     w\<lparr>generateBtnDisabled := (trim (textareaValue w) = []),
       btnText := lit ''Improve Visualization'',
       spinnerShown := False, textareaDisabled := False\<rparr>"
| "setState IDLE w =
     w\<lparr>generateBtnDisabled := (trim (textareaValue w) = []),
       btnText := lit ''Generate Visualization'',
       spinnerShown := False, textareaDisabled := False\<rparr>"
| "setState ERROR w =
     w\<lparr>generateBtnDisabled := (trim (textareaValue w) = []),
       btnText := lit ''Generate Visualization'',
       spinnerShown := False, textareaDisabled := False\<rparr>"

definition getState :: "widget \<Rightarrow> VisualizationState" where
  "getState w = state w"

definition showError :: "jsstring \<Rightarrow> widget \<Rightarrow> widget" where
  "showError msg w = w\<lparr>errorText := msg, errorShown := True\<rparr>"

definition hideError :: "widget \<Rightarrow> widget" where
  "hideError w = w\<lparr>errorShown := False\<rparr>"

definition displayVisualization :: "jsstring \<Rightarrow> widget \<Rightarrow> widget" where
  "displayVisualization htmlContent w =
     w\<lparr>visualizationShown := True, clearBtnShown := True,
       iframe := True, srcdoc := injectApiBridge htmlContent\<rparr>"

subsection \<open>History store\<close>

text \<open>
  \<open>try { localStorage.setItem(KEY, JSON.stringify(this.history)); } catch {}\<close> and
  \<open>try { localStorage.removeItem(KEY); } catch {}\<close>
\<close>

definition persistHistory :: "widget \<Rightarrow> widget" where
  "persistHistory w = (if storageFails w then w else w\<lparr>localStorage := Stored (history w)\<rparr>)"

definition removePersisted :: "widget \<Rightarrow> widget" where
  "removePersisted w = (if storageFails w then w else w\<lparr>localStorage := Missing\<rparr>)"

text \<open>\<open>this.history.unshift(item); this.history = this.history.slice(0,10);\<close>\<close>

definition saveHistory :: "VisualizationHistoryItem \<Rightarrow> widget \<Rightarrow> widget" where
  "saveHistory item w = persistHistory (w\<lparr>history := take 10 (item # history w)\<rparr>)"

text \<open>\<open>if (idx<0||idx>=this.history.length) return; this.history[idx]=item;\<close>\<close>

definition replaceHistory :: "nat \<Rightarrow> VisualizationHistoryItem \<Rightarrow> widget \<Rightarrow> widget" where
  "replaceHistory idx item w =
     (if idx \<ge> length (history w) then w
      else persistHistory (w\<lparr>history := (history w)[idx := item]\<rparr>))"

definition removeHistory :: "nat \<Rightarrow> widget \<Rightarrow> widget" where
  "removeHistory idx w =
     (if idx \<ge> length (history w) then w
      else persistHistory (w\<lparr>history := take idx (history w) @ drop (Suc idx) (history w)\<rparr>))"

definition clearHistory :: "widget \<Rightarrow> widget" where
  "clearHistory w = removePersisted (w\<lparr>history := [], activeHistoryIndex := None\<rparr>)"

text \<open>Saving a list of items one after the other, the first of the list first.\<close>

definition saveAll :: "VisualizationHistoryItem list \<Rightarrow> widget \<Rightarrow> widget" where
  "saveAll items w = foldl (\<lambda>v item. saveHistory item v) w items"

subsection \<open>Generating\<close>

text \<open>
  The \<open>catch\<close> block of \<open>generateVisualization\<close>:
  \<^verbatim>\<open>
  this.setState(VisualizationState.ERROR);
  const errorMessage = error instanceof Error ? error.message : 'Failed to generate visualization';
  this.showError(errorMessage);
  if (this.config.onError) {
    this.config.onError(error instanceof Error ? error : new Error(errorMessage));
  }
  \<close>
  Nothing guards the call of \<open>onError\<close>: what it throws leaves the \<open>async\<close> method and
  rejects the promise it returned.
\<close>

definition catchGenerationError ::
  "AIDataVisualizationConfig \<Rightarrow> thrown \<Rightarrow> widget \<Rightarrow> settlement \<times> widget" where
  "catchGenerationError cfg e w =
     (let errorMessage =
            (if instanceofError e then errorMessageOf e
             else lit ''Failed to generate visualization'');
          w1 = showError errorMessage (setState ERROR w)
      in case onError cfg of
           None \<Rightarrow> (Resolved, w1)
         | Some handler \<Rightarrow>
             (let reported = (if instanceofError e then e else ErrorObject errorMessage);
                  w2 = w1\<lparr>errorsReported := errorsReported w1 @ [reported]\<rparr>
              in case handler reported of
                   None \<Rightarrow> (Resolved, w2)
                 | Some t \<Rightarrow> (RejectedWith t, w2)))"

text \<open>
  \<open>const isImprovement = this.lastGeneratedCode !== null &&
  this.state === VisualizationState.DISPLAYING;\<close>
\<close>

definition isImprovementRequest :: "widget \<Rightarrow> bool" where
  "isImprovementRequest w = (lastGeneratedCode w \<noteq> None \<and> state w = DISPLAYING)"

text \<open>\<open>await this.config.chatCompletion(prompt)\<close>\<close>

definition callChatCompletion :: "AIDataVisualizationConfig \<Rightarrow> jsstring \<Rightarrow> jsstring callOutcome" where
  "callChatCompletion cfg p =
     (case chatCompletion cfg of None \<Rightarrow> Throws notCallableError | Some f \<Rightarrow> f p)"

text \<open>
  \<open>this.lastGeneratedCode as string\<close> inside the template literal: a \<open>null\<close> would be
  spelled \<open>null\<close>.
\<close>

definition existingCode :: "widget \<Rightarrow> jsstring" where
  "existingCode w = (case lastGeneratedCode w of None \<Rightarrow> lit ''null'' | Some c \<Rightarrow> c)"

text \<open>\<open>this.originalPrompt || message\<close>\<close>

definition historyPrompt :: "widget \<Rightarrow> jsstring \<Rightarrow> jsstring" where
  "historyPrompt w message =
     (case originalPrompt w of None \<Rightarrow> message | Some p \<Rightarrow> if p = [] then message else p)"

text \<open>
  What follows a non-empty cleaned answer inside the \<open>try\<close> block, up to the final
  \<open>setState(DISPLAYING)\<close>.
\<close>

definition showGenerated :: "bool \<Rightarrow> jsstring \<Rightarrow> jsstring \<Rightarrow> nat \<Rightarrow> widget \<Rightarrow> widget" where
  "showGenerated isImprovement message htmlResponse now w =
     (let w1 = (displayVisualization htmlResponse w)\<lparr>lastGeneratedCode := Some htmlResponse\<rparr>;
          w2 = w1\<lparr>promptText := promptHistory (originalPrompt w1) (improvementPrompts w1),
                 promptSummaryShown := True, textareaValue := []\<rparr>;
          historyItem = \<lparr>prompt = historyPrompt w2 message, html = htmlResponse, timestamp = now\<rparr>;
          w3 = (case activeHistoryIndex w2 of
                  Some idx \<Rightarrow>
                    if isImprovement then replaceHistory idx historyItem w2
                    else (saveHistory historyItem w2)\<lparr>activeHistoryIndex := Some 0\<rparr>
                | None \<Rightarrow> (saveHistory historyItem w2)\<lparr>activeHistoryIndex := Some 0\<rparr>)
      in setState DISPLAYING w3)"

text \<open>
  \<open>generateVisualization\<close> when nothing else happens to the instance while the
  completion is pending: from the call to the settlement of the promise it returns, as
  one step; \<open>now\<close> is what \<open>Date.now()\<close> gives. The method as it runs in general,
  with the wait at \<open>await\<close> and whatever happens to the instance in the meantime, is
  \<open>generateInterleaved\<close> below; the two agree when nothing happens in the meantime.
\<close>

definition generateVisualization ::
  "AIDataVisualizationConfig \<Rightarrow> nat \<Rightarrow> widget \<Rightarrow> settlement \<times> widget" where
  "generateVisualization cfg now w =
     (if mounted w then
        (let message = trim (textareaValue w) in
         if message = [] then
           (Resolved, showError (lit ''Please enter a visualization request'') w)
         else
           (let isImprovement = isImprovementRequest w;
                w1 = (if isImprovement
                      then w\<lparr>improvementPrompts := improvementPrompts w @ [message]\<rparr>
                      else w\<lparr>originalPrompt := Some message, improvementPrompts := []\<rparr>);
                w2 = hideError (setState GENERATING w1);
                sent = (if isImprovement
                        then buildImprovementPrompt (apiDescription cfg) (originalPrompt w2)
                               (improvementPrompts w2) (existingCode w2)
                        else buildVisualizationPrompt (apiDescription cfg) message);
                w3 = w2\<lparr>promptsSent := promptsSent w2 @ [sent]\<rparr>
            in case callChatCompletion cfg sent of
                 Resolves raw \<Rightarrow>
                   (let htmlResponse = sanitizeHtmlResponse raw in
                    if htmlResponse = [] \<or> trim htmlResponse = [] then
                      catchGenerationError cfg
                        (AIDataVisualizationError INVALID_HTML_RESPONSE
                           (lit ''AI returned empty response'')) w3
                    else (Resolved, showGenerated isImprovement message htmlResponse now w3))
               | Rejects e \<Rightarrow> catchGenerationError cfg e w3
               | Throws e \<Rightarrow> catchGenerationError cfg e w3))
      else (RejectedWith nullPropertyError, w))"

text \<open>
  Three views of \<open>generateVisualization\<close> for a mounted instance with non-empty text:
  the prompt the call sends, the instance at the moment the completion callback is
  called, and what the rest of the method does with the callback's outcome.
\<close>

definition nextPrompt :: "AIDataVisualizationConfig \<Rightarrow> widget \<Rightarrow> jsstring" where
  "nextPrompt cfg w =
     (if isImprovementRequest w
      then buildImprovementPrompt (apiDescription cfg) (originalPrompt w)
             (improvementPrompts w @ [trim (textareaValue w)]) (existingCode w)
      else buildVisualizationPrompt (apiDescription cfg) (trim (textareaValue w)))"

definition awaitingCompletion :: "AIDataVisualizationConfig \<Rightarrow> widget \<Rightarrow> widget" where
  "awaitingCompletion cfg w =
     (let message = trim (textareaValue w);
          w1 = (if isImprovementRequest w
                then w\<lparr>improvementPrompts := improvementPrompts w @ [message]\<rparr>
                else w\<lparr>originalPrompt := Some message, improvementPrompts := []\<rparr>);
          w2 = hideError (setState GENERATING w1)
      in w2\<lparr>promptsSent := promptsSent w2 @ [nextPrompt cfg w]\<rparr>)"

definition afterCompletion ::
  "AIDataVisualizationConfig \<Rightarrow> nat \<Rightarrow> widget \<Rightarrow> jsstring callOutcome \<Rightarrow> settlement \<times> widget" where
  "afterCompletion cfg now w outcome =
     (case outcome of
        Resolves raw \<Rightarrow>
          if sanitizeHtmlResponse raw = [] then
            catchGenerationError cfg
              (AIDataVisualizationError INVALID_HTML_RESPONSE (lit ''AI returned empty response''))
              (awaitingCompletion cfg w)
          else
            (Resolved,
             showGenerated (isImprovementRequest w) (trim (textareaValue w))
               (sanitizeHtmlResponse raw) now (awaitingCompletion cfg w))
      | Rejects e \<Rightarrow> catchGenerationError cfg e (awaitingCompletion cfg w)
      | Throws e \<Rightarrow> catchGenerationError cfg e (awaitingCompletion cfg w))"

subsection \<open>Clearing, selecting, and the other handlers\<close>

text \<open>\<open>clearVisualization\<close> is synchronous: without the subtree it throws.\<close>

definition clearVisualization :: "widget \<Rightarrow> thrown + widget" where
  "clearVisualization w =
     (if mounted w then
        (let w1 = hideError (setState IDLE (w\<lparr>visualizationShown := False, clearBtnShown := False\<rparr>));
             w2 = (if iframe w1 then w1\<lparr>srcdoc := []\<rparr> else w1)
         in Inr (w2\<lparr>iframe := False,
                   lastGeneratedCode := None,
                   activeHistoryIndex := None,
                   originalPrompt := None,
                   improvementPrompts := [],
                   promptSummaryShown := False,
                   promptText := []\<rparr>))
      else Inl nullPropertyError)"

text \<open>A click on the entry \<open>index\<close> of the history list (outside its two buttons).\<close>

definition selectHistory :: "nat \<Rightarrow> widget \<Rightarrow> widget" where
  "selectHistory index w =
     (if index < length (history w) then
        (let item = history w ! index;
             w1 = displayVisualization (html item) (w\<lparr>activeHistoryIndex := Some index\<rparr>)
         in setState DISPLAYING
              (w1\<lparr>textareaValue := [],
                  promptText := prompt item,
                  promptSummaryShown := True,
                  originalPrompt := Some (prompt item),
                  improvementPrompts := [],
                  lastGeneratedCode := Some (html item)\<rparr>))
      else w)"

text \<open>The user edits the text area; the \<open>input\<close> listener sets the button.\<close>

definition inputText :: "jsstring \<Rightarrow> widget \<Rightarrow> widget" where
  "inputText v w =
     w\<lparr>textareaValue := v,
       generateBtnDisabled := (trim v = [] \<or> state w = GENERATING)\<rparr>"

definition toggleInputSection :: "widget \<Rightarrow> widget" where
  "toggleInputSection w = w\<lparr>inputCollapsed := \<not> inputCollapsed w\<rparr>"

definition setTheme :: "themeName \<Rightarrow> widget \<Rightarrow> widget" where
  "setTheme t w = w\<lparr>currentTheme := t\<rparr>"

definition destroy :: "widget \<Rightarrow> widget" where
  "destroy w = w\<lparr>listening := False, mounted := False, iframe := False\<rparr>"

subsection \<open>Messages from the sandboxed document\<close>

text \<open>\<open>if (this.iframe?.contentWindow) this.iframe.contentWindow.postMessage(message, '*')\<close>\<close>

definition sendMessageToIframe :: "ApiResponseData \<Rightarrow> widget \<Rightarrow> widget" where
  "sendMessageToIframe m w =
     (if iframe w then w\<lparr>messagesPosted := messagesPosted w @ [m]\<rparr> else w)"

text \<open>
  \<open>handleApiRequest\<close>: the fetch callback is awaited inside \<open>try\<close>, and the \<open>catch\<close>
  block answers with the message of what was caught, or with \<open>'API request failed'\<close>
  when that is not an \<open>Error\<close>. The payload is the JSON text of the answer.
\<close>

definition callApiRequest :: "AIDataVisualizationConfig \<Rightarrow> jsstring \<Rightarrow> jsstring callOutcome" where
  "callApiRequest cfg u =
     (case apiRequest cfg of None \<Rightarrow> Throws notCallableError | Some f \<Rightarrow> f u)"

definition fetchFailure :: "jsstring \<Rightarrow> thrown \<Rightarrow> ApiResponseData" where
  "fetchFailure ident e =
     \<lparr>responseRequestId = ident, responseData = None,
      responseError =
        Some (if instanceofError e then errorMessageOf e else lit ''API request failed'')\<rparr>"

definition handleApiRequest ::
  "AIDataVisualizationConfig \<Rightarrow> jsstring \<Rightarrow> jsstring \<Rightarrow> widget \<Rightarrow> settlement \<times> widget" where
  "handleApiRequest cfg ident u w =
     (case callApiRequest cfg u of
        Resolves payload \<Rightarrow>
          (Resolved,
           sendMessageToIframe
             \<lparr>responseRequestId = ident, responseData = Some payload, responseError = None\<rparr> w)
      | Rejects e \<Rightarrow> (Resolved, sendMessageToIframe (fetchFailure ident e) w)
      | Throws e \<Rightarrow> (Resolved, sendMessageToIframe (fetchFailure ident e) w))"

text \<open>
  The \<open>message\<close> listener of the window. A message whose source is not the window of
  the iframe the instance holds is ignored. The result says what the listener itself
  throws, if anything; the promise of \<open>handleApiRequest\<close> is not awaited.
\<close>

definition handleMessage ::
  "AIDataVisualizationConfig \<Rightarrow> IframeMessage \<Rightarrow> widget \<Rightarrow> thrown option \<times> widget" where
  "handleMessage cfg m w =
     (if listening w \<and> iframe w \<and> fromIframe m then
        (if iframeMessageType m = lit ''API_REQUEST'' \<and> truthy (iframeRequestId m)
              \<and> truthy (iframeUrl m) then
           (case (iframeRequestId m, iframeUrl m) of
              (Some ident, Some u) \<Rightarrow> (None, snd (handleApiRequest cfg ident u w))
            | _ \<Rightarrow> (None, w))
         else if iframeMessageType m = lit ''IFRAME_ERROR'' then
           (if mounted w then
              (let text = (if truthy (iframeMessageText m)
                           then (case iframeMessageText m of Some t \<Rightarrow> t | None \<Rightarrow> [])
                           else lit ''Visualization error'');
                   w1 = showError text (setState ERROR w)
               in case onError cfg of
                    None \<Rightarrow> (None, w1)
                  | Some handler \<Rightarrow>
                      (handler (ErrorObject text),
                       w1\<lparr>errorsReported := errorsReported w1 @ [ErrorObject text]\<rparr>))
            else (Some nullPropertyError, w))
         else (None, w))
      else (None, w))"

subsection \<open>Everything that can happen to an instance\<close>

text \<open>
  The public methods and the listeners that \<open>setupEventListeners\<close> and
  \<open>setupMessageListener\<close> install, as actions on the instance. The retry button calls
  \<open>generateVisualization\<close> like the generate button; the publish button of a history
  entry calls a host callback inside \<open>try\<close> and changes nothing of the instance.
\<close>

datatype action =
    Generate nat
  | Clear
  | SelectHistory nat
  | RemoveHistory nat
  | ClearHistory
  | InputText jsstring
  | ToggleInput
  | SetTheme themeName
  | Destroy
  | Message IframeMessage

fun perform :: "AIDataVisualizationConfig \<Rightarrow> action \<Rightarrow> widget \<Rightarrow> widget" where
  "perform cfg (Generate now) w = snd (generateVisualization cfg now w)"
| "perform cfg Clear w = (case clearVisualization w of Inl e \<Rightarrow> w | Inr v \<Rightarrow> v)"
| "perform cfg (SelectHistory i) w = (if mounted w then selectHistory i w else w)"
| "perform cfg (RemoveHistory i) w = (if mounted w then removeHistory i w else w)"
| "perform cfg ClearHistory w = (if mounted w then clearHistory w else w)"
| "perform cfg (InputText v) w = (if mounted w then inputText v w else w)"
| "perform cfg ToggleInput w = (if mounted w then toggleInputSection w else w)"
| "perform cfg (SetTheme t) w = (if mounted w then setTheme t w else w)"
| "perform cfg Destroy w = destroy w"
| "perform cfg (Message m) w = snd (handleMessage cfg m w)"

definition performAll :: "AIDataVisualizationConfig \<Rightarrow> action list \<Rightarrow> widget \<Rightarrow> widget" where
  "performAll cfg actions w = foldl (\<lambda>v a. perform cfg a v) w actions"

text \<open>
  The instances a host can hold: what \<open>create\<close> returned, after any sequence of
  actions.
\<close>

definition reachable :: "AIDataVisualizationConfig \<Rightarrow> widget \<Rightarrow> bool" where
  "reachable cfg w =
     (\<exists>found fails stored w0 actions.
        create found fails stored cfg = Inr w0 \<and> w = performAll cfg actions w0)"

subsection \<open>Waiting for the host\<close>

text \<open>
  \<open>generateVisualization\<close> is an \<open>async\<close> method: what stands before
  \<open>await this.config.chatCompletion(prompt)\<close> runs at the call, and the rest runs when
  the promise of the completion settles, on the instance as it is by then, with the
  locals \<open>isImprovement\<close> and \<open>message\<close> of the call. \<open>resumeGeneration\<close> is that rest.
  It starts at the DOM again: with the subtree gone, \<open>displayVisualization\<close> throws
  inside \<open>try\<close> (or the \<open>throw\<close> for an empty answer, or the rejection, gets to
  \<open>catch\<close> directly), and the \<open>setState\<close> that opens the \<open>catch\<close> block throws in
  turn, before anything is written and before \<open>onError\<close> is called: the promise
  rejects with that \<open>TypeError\<close>.
\<close>

definition resumeGeneration ::
  "AIDataVisualizationConfig \<Rightarrow> nat \<Rightarrow> bool \<Rightarrow> jsstring \<Rightarrow> jsstring callOutcome \<Rightarrow> widget
     \<Rightarrow> settlement \<times> widget" where
  "resumeGeneration cfg now isImprovement message outcome w =
     (if mounted w then
        (case outcome of
           Resolves raw \<Rightarrow>
             (let htmlResponse = sanitizeHtmlResponse raw in
              if htmlResponse = [] \<or> trim htmlResponse = [] then
                catchGenerationError cfg
                  (AIDataVisualizationError INVALID_HTML_RESPONSE
                     (lit ''AI returned empty response'')) w
              else (Resolved, showGenerated isImprovement message htmlResponse now w))
         | Rejects e \<Rightarrow> catchGenerationError cfg e w
         | Throws e \<Rightarrow> catchGenerationError cfg e w)
      else (RejectedWith nullPropertyError, w))"

text \<open>
  The whole method, with \<open>during\<close> for everything that happens to the instance between
  the call of the completion callback and the settlement of its promise: handlers of
  the user's actions, other calls of the public methods, \<open>destroy\<close>. A completion
  callback that throws does so at the call, so the \<open>catch\<close> block runs before anything
  else can happen.
\<close>

definition generateInterleaved ::
  "AIDataVisualizationConfig \<Rightarrow> nat \<Rightarrow> (widget \<Rightarrow> widget) \<Rightarrow> widget \<Rightarrow> settlement \<times> widget" where
  "generateInterleaved cfg now during w =
     (if mounted w then
        (let message = trim (textareaValue w) in
         if message = [] then
           (Resolved, showError (lit ''Please enter a visualization request'') w)
         else
           (let isImprovement = isImprovementRequest w;
                w1 = (if isImprovement
                      then w\<lparr>improvementPrompts := improvementPrompts w @ [message]\<rparr>
                      else w\<lparr>originalPrompt := Some message, improvementPrompts := []\<rparr>);
                w2 = hideError (setState GENERATING w1);
                sent = (if isImprovement
                        then buildImprovementPrompt (apiDescription cfg) (originalPrompt w2)
                               (improvementPrompts w2) (existingCode w2)
                        else buildVisualizationPrompt (apiDescription cfg) message);
                w3 = w2\<lparr>promptsSent := promptsSent w2 @ [sent]\<rparr>
            in case callChatCompletion cfg sent of
                 Resolves raw \<Rightarrow>
                   resumeGeneration cfg now isImprovement message (Resolves raw) (during w3)
               | Rejects e \<Rightarrow>
                   resumeGeneration cfg now isImprovement message (Rejects e) (during w3)
               | Throws e \<Rightarrow> catchGenerationError cfg e w3))
      else (RejectedWith nullPropertyError, w))"

text \<open>
  \<open>handleApiRequest\<close> waits for the fetch callback in the same way; its answer goes to
  the iframe the instance holds when the fetch settles. \<open>sendMessageToIframe\<close> tests
  the handle before it uses it, and touches nothing else.
\<close>

definition handleApiRequestInterleaved ::
  "AIDataVisualizationConfig \<Rightarrow> jsstring \<Rightarrow> jsstring \<Rightarrow> (widget \<Rightarrow> widget) \<Rightarrow> widget
     \<Rightarrow> settlement \<times> widget" where
  "handleApiRequestInterleaved cfg ident u during w =
     (case callApiRequest cfg u of
        Resolves payload \<Rightarrow>
          (Resolved,
           sendMessageToIframe
             \<lparr>responseRequestId = ident, responseData = Some payload, responseError = None\<rparr>
             (during w))
      | Rejects e \<Rightarrow> (Resolved, sendMessageToIframe (fetchFailure ident e) (during w))
      | Throws e \<Rightarrow> (Resolved, sendMessageToIframe (fetchFailure ident e) w))"

section \<open>Concrete hosts\<close>

text \<open>
  A host whose completion callback answers every prompt with one small document, and
  the instance it gets from \<open>create\<close> in a browser with no stored history; a host whose
  completion callback answers with the empty string; a host whose completion callback
  rejects; and one whose \<open>onError\<close>, in addition, throws what it is given.
\<close>

definition sampleDocument :: jsstring where
  "sampleDocument = lit ''<html><body>chart</body></html>''"

definition sampleConfig :: AIDataVisualizationConfig where
  "sampleConfig =
     \<lparr>container = Element,
      apiDescription = lit ''{}'',
      chatCompletion = Some (\<lambda>p. Resolves sampleDocument),
      apiRequest = Some (\<lambda>u. Resolves (lit ''{}'')),
      onError = Some (\<lambda>e. None),
      themeOption = None,
      className = None\<rparr>"

definition freshWidget :: widget where
  "freshWidget = initialWidget sampleConfig False Missing"

definition emptyAnswerConfig :: AIDataVisualizationConfig where
  "emptyAnswerConfig = sampleConfig\<lparr>chatCompletion := Some (\<lambda>p. Resolves [])\<rparr>"

definition rejectingConfig :: AIDataVisualizationConfig where
  "rejectingConfig =
     sampleConfig\<lparr>chatCompletion := Some (\<lambda>p. Rejects (ErrorObject (lit ''offline'')))\<rparr>"

definition throwingHandlerConfig :: AIDataVisualizationConfig where
  "throwingHandlerConfig = rejectingConfig\<lparr>onError := Some (\<lambda>e. Some e)\<rparr>"

definition sampleItem :: "nat \<Rightarrow> VisualizationHistoryItem" where
  "sampleItem n = \<lparr>prompt = lit ''chart'', html = sampleDocument, timestamp = n\<rparr>"

text \<open>
  Two answers of the host to the sandboxed document: one for the call with the
  correlation id \<open>req_1_a\<close>, and one for another call.
\<close>

definition lateResponse :: "jsstring frameMessage" where
  "lateResponse =
     \<lparr>messageType = lit ''API_RESPONSE'', messageRequestId = lit ''req_1_a'',
      messageData = lit ''{}'', messageError = None\<rparr>"

definition strayResponse :: "jsstring frameMessage" where
  "strayResponse = lateResponse\<lparr>messageRequestId := lit ''req_1_b''\<rparr>"

section \<open>Properties of cleaning\<close>

lemma dropWhile_all: "list_all P w \<Longrightarrow> dropWhile P (w @ r) = dropWhile P r"
  by (induction w) auto

lemma trim_pad:
  assumes "list_all isWhiteSpace w1" "list_all isWhiteSpace w2" "trimmed a"
  shows "trim (w1 @ a @ w2) = a"
proof (cases "a = []")
  case True
  have "list_all isWhiteSpace (w1 @ w2)" using assms by simp
  then have d: "dropWhile isWhiteSpace (w1 @ [] @ w2) = []"
    unfolding dropWhile_eq_Nil_conv by (simp add: list_all_iff)
  show ?thesis unfolding True trim_def d by simp
next
  case False
  then have h: "\<not> isWhiteSpace (hd a)" and l: "\<not> isWhiteSpace (last a)"
    using assms(3) by (auto simp: trimmed_def)
  have 1: "dropWhile isWhiteSpace (w1 @ a @ w2) = a @ w2"
    using False h assms(1) by (cases a) (auto simp: dropWhile_all)
  have 2: "dropWhile isWhiteSpace (rev w2 @ rev a) = rev a"
    using False l assms(2) by (cases a rule: rev_cases) (auto simp: dropWhile_all)
  show ?thesis by (simp add: trim_def 1 2)
qed

lemma trim_trimmed: "trimmed a \<Longrightarrow> trim a = a"
  using trim_pad[of "[]" "[]" a] by simp

lemma stripTrailingFence_none:
  "(\<And>i. i < length s \<Longrightarrow> \<not> (prefix fence (drop i s) \<and> list_all isWhiteSpace (drop (i + 3) s))) \<Longrightarrow>
   stripTrailingFence s = s"
proof (induction s)
  case Nil
  then show ?case by simp
next
  case (Cons c cs)
  have 0: "\<not> (prefix fence (c # cs) \<and> list_all isWhiteSpace (drop 3 (c # cs)))"
    using Cons.prems[of 0] by simp
  have "stripTrailingFence cs = cs"
  proof (rule Cons.IH)
    fix i assume "i < length cs"
    then show "\<not> (prefix fence (drop i cs) \<and> list_all isWhiteSpace (drop (i + 3) cs))"
      using Cons.prems[of "Suc i"] by (simp add: numeral_3_eq_3)
  qed
  then show ?case using 0 by simp
qed

lemma stripTrailingFence_append_fence: "stripTrailingFence (u @ fence) = u"
proof (induction u)
  case Nil
  then show ?case by (simp add: fence_def)
next
  case (Cons c u)
  have "\<not> list_all isWhiteSpace (drop 3 (c # u @ fence))"
  proof -
    have "drop 3 (c # u @ fence) = drop 2 u @ drop (2 - length u) fence" by (simp add: numeral_3_eq_3 numeral_2_eq_2)
    moreover have "drop (2 - length u) fence \<noteq> []" by (simp add: fence_def)
    moreover have "last (drop (2 - length u) fence) = 96" by (simp add: fence_def)
    ultimately have "(96::16 word) \<in> set (drop 3 (c # u @ fence))"
      by (metis last_in_set last_appendR Un_iff set_append)
    moreover have "\<not> isWhiteSpace 96" by (simp add: isWhiteSpace_def)
    ultimately show ?thesis by (auto simp: list_all_iff)
  qed
  then show ?case using Cons by simp
qed

lemma not_ws_backtick: "\<not> isWhiteSpace 96"
  by (simp add: isWhiteSpace_def)

lemma canonicalize_html_not_ws:
  "canonicalize c \<in> {72, 84, 77, 76} \<Longrightarrow> \<not> isWhiteSpace c \<and> c \<noteq> 96"
  by (auto simp: canonicalize_def isWhiteSpace_def split: if_splits)

lemma stripTrailingFence_clean:
  assumes "trimmed a" "\<not> suffix fence a"
  shows "stripTrailingFence a = a"
proof (rule stripTrailingFence_none)
  fix i assume i: "i < length a"
  then have ne: "a \<noteq> []" by auto
  then have l: "\<not> isWhiteSpace (last a)" using assms(1) by (simp add: trimmed_def)
  show "\<not> (prefix fence (drop i a) \<and> list_all isWhiteSpace (drop (i + 3) a))"
  proof
    assume h: "prefix fence (drop i a) \<and> list_all isWhiteSpace (drop (i + 3) a)"
    show False
    proof (cases "drop (i + 3) a = []")
      case True
      from h have "length fence \<le> length (drop i a)" using prefix_length_le by blast
      then have "length a = i + 3" using True by (simp add: fence_def)
      then have le: "length (drop i a) = length fence" by (simp add: fence_def)
      from h obtain zs where zs: "drop i a = fence @ zs" by (auto simp: prefix_def)
      have "length (drop i a) = length fence + length zs" by (simp only: zs length_append)
      then have "zs = []" using le by simp
      then have "drop i a = fence" using zs by simp
      then have "suffix fence a" by (metis suffix_drop)
      then show False using assms(2) by simp
    next
      case False
      then have "last a \<in> set (drop (i + 3) a)" by (metis last_drop last_in_set drop_eq_Nil not_le)
      then show False using h l by (auto simp: list_all_iff)
    qed
  qed
qed

lemma sanitize_clean:
  assumes "trimmed a" "\<not> prefix fence a" "\<not> suffix fence a"
  shows "sanitizeHtmlResponse a = a"
  using assms
  by (simp add: sanitizeHtmlResponse_def trim_trimmed stripTaggedFence_def stripLeadingFence_def
      stripTrailingFence_clean)

lemma matchesHtml_append:
  assumes "matchesHtml (a @ r)" "r = [] \<or> isWhiteSpace (hd r) \<or> hd r = 96"
  shows "matchesHtml a"
proof (cases "4 \<le> length a")
  case True
  then show ?thesis using assms(1) by (simp add: matchesHtml_def)
next
  case False
  show ?thesis
  proof (cases "r = []")
    case True
    then show ?thesis using assms(1) by simp
  next
    case rne: False
    let ?k = "length a"
    have eq: "map canonicalize (take 4 (a @ r)) = [72, 84, 77, 76]"
      using assms(1) by (simp add: matchesHtml_def)
    have "length (map canonicalize (take 4 (a @ r))) = length [72, 84, 77, 76::16 word]"
      by (simp only: eq)
    then have len: "length (take 4 (a @ r)) = 4" by simp
    have k: "?k < 4" using False by simp
    have "map canonicalize (take 4 (a @ r)) ! ?k = canonicalize (hd r)"
      using k len rne by (simp add: nth_append hd_conv_nth)
    moreover have "[72, 84, 77, 76::16 word] ! ?k \<in> {72, 84, 77, 76}"
      using k by (cases "?k"; simp add: nth_Cons split: nat.splits)
    ultimately have "canonicalize (hd r) \<in> {72, 84, 77, 76}" using eq by metis
    then show ?thesis using canonicalize_html_not_ws assms(2) rne by blast
  qed
qed

lemma trimmed_wrapped: "trimmed (fence @ x @ fence)"
  by (simp add: trimmed_def fence_def not_ws_backtick[simplified] isWhiteSpace_def)

lemma dropWhile_ws_body:
  assumes "list_all isWhiteSpace w1" "list_all isWhiteSpace w2" "trimmed a"
  shows "dropWhile isWhiteSpace (w1 @ a @ w2 @ fence) = (if a = [] then fence else a @ w2 @ fence)"
proof (cases "a = []")
  case True
  have "list_all isWhiteSpace (w1 @ w2)" using assms by simp
  then have "dropWhile isWhiteSpace ((w1 @ w2) @ fence) = dropWhile isWhiteSpace fence"
    by (rule dropWhile_all)
  then show ?thesis using True by (simp add: fence_def isWhiteSpace_def)
next
  case False
  then have "\<not> isWhiteSpace (hd a)" using assms(3) by (simp add: trimmed_def)
  then have "dropWhile isWhiteSpace (a @ w2 @ fence) = a @ w2 @ fence"
    using False by (cases a) auto
  then show ?thesis using False dropWhile_all[OF assms(1)] by simp
qed

lemma tag_head:
  assumes "length tag = 4" "matchesHtml tag"
  shows "dropWhile isWhiteSpace (tag @ r) = tag @ r" "matchesHtml (tag @ r)" "drop 4 (tag @ r) = r"
proof -
  obtain c cs where t: "tag = c # cs" using assms(1) by (cases tag) auto
  have "canonicalize c = 72" using assms(2) t by (simp add: matchesHtml_def)
  then have "\<not> isWhiteSpace c" using canonicalize_html_not_ws[of c] by simp
  then show "dropWhile isWhiteSpace (tag @ r) = tag @ r" using t by simp
  show "matchesHtml (tag @ r)" using assms by (simp add: matchesHtml_def)
  show "drop 4 (tag @ r) = r" using assms(1) by simp
qed

lemma short_backticks:
  assumes "a \<noteq> []" "\<not> prefix fence a" "prefix fence (a @ w2 @ fence)" "list_all isWhiteSpace w2"
  shows "(a = [96] \<or> a = [96, 96]) \<and> w2 = []"
proof -
  from assms(3) obtain zs where z: "a @ w2 @ fence = fence @ zs" by (auto simp: prefix_def)
  have t: "take 3 (a @ w2 @ fence) = fence"
    unfolding z by (simp add: fence_def)
  have len: "length a < 3"
  proof (rule ccontr)
    assume "\<not> length a < 3"
    then have "take 3 a = fence" using t by simp
    then have "prefix fence a" by (metis take_is_prefix)
    then show False using assms(2) by simp
  qed
  have w: "w2 = []"
  proof (rule ccontr)
    assume ne: "w2 \<noteq> []"
    have "(a @ w2 @ fence) ! length a = hd w2" using ne by (simp add: nth_append hd_conv_nth)
    moreover have "take 3 (a @ w2 @ fence) ! length a = (a @ w2 @ fence) ! length a"
      using len by (rule nth_take)
    moreover have "fence ! length a = 96"
      using len by (cases "length a"; simp add: fence_def nth_Cons split: nat.splits)
    ultimately have "hd w2 = 96" using t by simp
    moreover have "isWhiteSpace (hd w2)" using ne assms(4) by (cases w2) auto
    ultimately show False using not_ws_backtick by simp
  qed
  have "a = take (length a) fence"
    using t len by (metis append_eq_conv_conj take_take min.absorb1 less_imp_le)
  then have "a = [96] \<or> a = [96, 96]"
    using len assms(1) by (cases "length a"; simp add: fence_def take_Cons' split: nat.splits if_splits)
  then show ?thesis using w by simp
qed

lemma tail_after_tagged:
  assumes "trimmed a" "\<not> prefix fence a" "list_all isWhiteSpace w2"
  shows "trim (stripTrailingFence (stripLeadingFence (if a = [] then fence else a @ w2 @ fence))) = a"
proof (cases "a = []")
  case True
  then show ?thesis by (simp add: stripLeadingFence_def fence_def trim_def)
next
  case ne: False
  show ?thesis
  proof (cases "prefix fence (a @ w2 @ fence)")
    case True
    from short_backticks[OF ne assms(2) True assms(3)]
    have "(a = [96] \<or> a = [96, 96]) \<and> w2 = []" .
    then show ?thesis
      by (auto simp: stripLeadingFence_def fence_def trim_def isWhiteSpace_def)
  next
    case False
    have "stripTrailingFence ((a @ w2) @ fence) = a @ w2"
      by (rule stripTrailingFence_append_fence)
    moreover have "trim ([] @ a @ w2) = a"
      by (rule trim_pad) (use assms in simp_all)
    ultimately show ?thesis using ne False by (simp add: stripLeadingFence_def)
  qed
qed

lemma sanitize_wrapped:
  assumes "trimmed a" "\<not> prefix fence a"
    and "list_all isWhiteSpace w1" "list_all isWhiteSpace w2"
    and "tag = [] \<and> \<not> matchesHtml a \<or> length tag = 4 \<and> matchesHtml tag"
  shows "sanitizeHtmlResponse (wrapInFence tag w1 w2 a) = a"
proof -
  let ?body = "w1 @ a @ w2 @ fence"
  let ?T = "if a = [] then fence else a @ w2 @ fence"
  have tr: "trim (wrapInFence tag w1 w2 a) = fence @ tag @ ?body"
    using trim_trimmed[OF trimmed_wrapped[of "tag @ w1 @ a @ w2"]]
    by (simp add: wrapInFence_def)
  have pf: "prefix fence (fence @ tag @ ?body)" by simp
  have d3: "drop 3 (fence @ tag @ ?body) = tag @ ?body" by (simp add: fence_def)
  have dw: "dropWhile isWhiteSpace ?body = ?T"
    by (rule dropWhile_ws_body) (use assms in simp_all)
  from assms(5) show ?thesis
  proof
    assume u: "tag = [] \<and> \<not> matchesHtml a"
    have "\<not> matchesHtml ?T"
    proof (cases "a = []")
      case True
      then show ?thesis by (simp add: matchesHtml_def fence_def)
    next
      case False
      have "\<not> matchesHtml (a @ (w2 @ fence))"
      proof
        assume "matchesHtml (a @ (w2 @ fence))"
        moreover have "w2 @ fence = [] \<or> isWhiteSpace (hd (w2 @ fence)) \<or> hd (w2 @ fence) = 96"
          using assms(4) by (cases w2) (auto simp: fence_def)
        ultimately have "matchesHtml a" by (rule matchesHtml_append)
        then show False using u by simp
      qed
      then show ?thesis using False by simp
    qed
    then have 1: "stripTaggedFence (fence @ ?body) = fence @ ?body"
      using dw by (simp add: stripTaggedFence_def fence_def)
    have 2: "stripLeadingFence (fence @ ?body) = ?body"
      by (simp add: stripLeadingFence_def fence_def)
    have 3: "stripTrailingFence ((w1 @ a @ w2) @ fence) = w1 @ a @ w2"
      by (rule stripTrailingFence_append_fence)
    have 4: "trim (w1 @ a @ w2) = a"
      by (rule trim_pad) (use assms in simp_all)
    show ?thesis
      using u tr 1 2 3 4 by (simp add: sanitizeHtmlResponse_def)
  next
    assume t: "length tag = 4 \<and> matchesHtml tag"
    then have th: "dropWhile isWhiteSpace (tag @ ?body) = tag @ ?body"
      "matchesHtml (tag @ ?body)" "drop 4 (tag @ ?body) = ?body"
      using tag_head[of tag ?body] by simp_all
    have 1: "stripTaggedFence (fence @ tag @ ?body) = ?T"
      by (simp only: stripTaggedFence_def pf d3 Let_def th dw if_True)
    show ?thesis
      unfolding sanitizeHtmlResponse_def tr 1
      by (rule tail_after_tagged) (use assms in simp_all)
  qed
qed

text \<open>
  C4 (as amended). Wrapping an artifact in a leading fence, with or without the tag
  \<open>html\<close> in any letter case, and a trailing fence, with any white space between the
  fences and the artifact, and cleaning the result gives back the artifact, provided the
  artifact is trimmed, does not itself start with a fence and, under an untagged fence,
  does not start with \<open>html\<close>. Cleaning a trimmed artifact that neither starts nor ends
  with a fence returns it unchanged.
\<close>

theorem sanitize_roundtrip:
  assumes "trimmed a" and "\<not> prefix fence a"
    and "list_all isWhiteSpace w1" and "list_all isWhiteSpace w2"
    and "tag = [] \<and> \<not> matchesHtml a \<or> length tag = 4 \<and> matchesHtml tag"
  shows "sanitizeHtmlResponse (wrapInFence tag w1 w2 a) = a \<and>
         (\<not> suffix fence a \<longrightarrow> sanitizeHtmlResponse a = a)"
  using assms sanitize_wrapped sanitize_clean by blast

theorem sanitize_roundtrip_witness:
  "sanitizeHtmlResponse
     (wrapInFence (lit ''html'') [10] [10] (lit ''<html><body>chart</body></html>'')) =
   lit ''<html><body>chart</body></html>'' \<and>
   sanitizeHtmlResponse (lit ''<html><body>chart</body></html>'') =
   lit ''<html><body>chart</body></html>''"
proof -
  let ?a = "lit ''<html><body>chart</body></html>''"
  have 1: "trimmed ?a" by (simp add: trimmed_def lit_def isWhiteSpace_def)
  have 2: "\<not> prefix fence ?a" by (simp add: lit_def fence_def)
  have 3: "list_all isWhiteSpace [10]" by (simp add: isWhiteSpace_def)
  have 4: "lit ''html'' = [] \<and> \<not> matchesHtml ?a \<or>
           length (lit ''html'') = 4 \<and> matchesHtml (lit ''html'')"
    by (simp add: lit_def matchesHtml_def canonicalize_def)
  have 5: "\<not> suffix fence ?a" by (simp add: lit_def fence_def suffix_def)
  from sanitize_roundtrip [OF 1 2 3 3 4] 5 show ?thesis by blast
qed

text \<open>
  The claim as the specification has it, for every artifact string, fails: an artifact
  that ends with a line break comes back without it, because the cleaned text is
  trimmed.
\<close>

theorem sanitize_roundtrip_counterexample:
  "sanitizeHtmlResponse (wrapInFence (lit ''html'') [10] [10] (lit ''<p>x</p>\<newline>'')) \<noteq>
   lit ''<p>x</p>\<newline>''"
  by (simp add: sanitizeHtmlResponse_def wrapInFence_def lit_def fence_def trim_def
      stripTaggedFence_def stripLeadingFence_def matchesHtml_def canonicalize_def
      isWhiteSpace_def Let_def)

text \<open>
  The other two conditions are needed as well: under an untagged fence an artifact
  that starts with \<open>html\<close> loses these four letters, and an artifact that starts with
  a fence of its own loses it.
\<close>

lemma sanitize_untagged_html_lost:
  "sanitizeHtmlResponse (wrapInFence [] [] [] (lit ''html5 page'')) = lit ''5 page''"
  by (simp add: sanitizeHtmlResponse_def wrapInFence_def lit_def fence_def trim_def
      stripTaggedFence_def stripLeadingFence_def matchesHtml_def canonicalize_def
      isWhiteSpace_def Let_def)

lemma sanitize_inner_fence_lost:
  "sanitizeHtmlResponse (wrapInFence (lit ''html'') [10] [10] (fence @ lit ''x'')) = lit ''x''"
  by (simp add: sanitizeHtmlResponse_def wrapInFence_def lit_def fence_def trim_def
      stripTaggedFence_def stripLeadingFence_def matchesHtml_def canonicalize_def
      isWhiteSpace_def Let_def)

section \<open>Injecting the bridge\<close>

lemma indexOfAux_first:
  "firstAt needle s i \<Longrightarrow> i \<le> length s \<Longrightarrow> indexOfAux needle s k = int (k + i)"
proof (induction s arbitrary: i k)
  case Nil
  then show ?case by (simp add: firstAt_def occursAt_def)
next
  case (Cons c cs)
  show ?case
  proof (cases "prefix needle (c # cs)")
    case True
    have "i = 0"
    proof (rule ccontr)
      assume "i \<noteq> 0"
      then have "\<not> occursAt needle (c # cs) 0" using Cons.prems(1) by (simp add: firstAt_def)
      then show False using True by (simp add: occursAt_def)
    qed
    then show ?thesis using True by simp
  next
    case False
    have "i \<noteq> 0"
    proof
      assume "i = 0"
      then have "prefix needle (c # cs)" using Cons.prems(1) by (simp add: firstAt_def occursAt_def)
      then show False using False by simp
    qed
    then obtain i' where i: "i = Suc i'" by (cases i) auto
    have "firstAt needle cs i'"
      unfolding firstAt_def occursAt_def
    proof (intro conjI allI impI)
      show "prefix needle (drop i' cs)"
        using Cons.prems(1) by (simp add: firstAt_def occursAt_def i)
      fix j assume "j < i'"
      then have "Suc j < i" by (simp add: i)
      then have "\<not> occursAt needle (c # cs) (Suc j)" using Cons.prems(1) by (simp add: firstAt_def)
      then show "\<not> prefix needle (drop j cs)" by (simp add: occursAt_def)
    qed
    moreover have "i' \<le> length cs" using Cons.prems(2) by (simp add: i)
    ultimately have "indexOfAux needle cs (Suc k) = int (Suc k + i')" by (rule Cons.IH)
    then show ?thesis using False by (simp add: i)
  qed
qed

lemma indexOfAux_absent:
  "needle \<noteq> [] \<Longrightarrow> absent needle s \<Longrightarrow> indexOfAux needle s k = -1"
proof (induction s arbitrary: k)
  case Nil
  then show ?case by simp
next
  case (Cons c cs)
  have "\<not> prefix needle (c # cs)"
    using Cons.prems(2) by (auto simp: absent_def occursAt_def dest: spec [of _ 0])
  moreover have "absent needle cs"
    unfolding absent_def occursAt_def
  proof (intro allI)
    fix i
    have "\<not> occursAt needle (c # cs) (Suc i)" using Cons.prems(2) by (simp add: absent_def)
    then show "\<not> prefix needle (drop i cs)" by (simp add: occursAt_def)
  qed
  ultimately show ?case using Cons.IH [OF Cons.prems(1)] by simp
qed

lemma occursAt_length:
  "needle \<noteq> [] \<Longrightarrow> occursAt needle s i \<Longrightarrow> i < length s"
  by (cases "i < length s") (auto simp: occursAt_def)

lemma indexOf_first:
  "needle \<noteq> [] \<Longrightarrow> firstAt needle s i \<Longrightarrow> indexOf s needle = int i"
  using indexOfAux_first [of needle s i 0] occursAt_length [of needle s i]
  by (simp add: indexOf_def indexOfFrom_def firstAt_def)

lemma indexOf_absent:
  "needle \<noteq> [] \<Longrightarrow> absent needle s \<Longrightarrow> indexOf s needle = -1"
  by (simp add: indexOf_def indexOfFrom_def indexOfAux_absent)

lemma indexOfFrom_first:
  "needle \<noteq> [] \<Longrightarrow> j \<le> length s \<Longrightarrow> firstAt needle (drop j s) k \<Longrightarrow>
   indexOfFrom s needle j = int (j + k)"
  using indexOfAux_first [of needle "drop j s" k j] occursAt_length [of needle "drop j s" k]
  by (simp add: indexOfFrom_def firstAt_def min_def)

lemma indexOfFrom_absent:
  "needle \<noteq> [] \<Longrightarrow> absent needle (drop j s) \<Longrightarrow> indexOfFrom s needle j = -1"
  by (cases "j \<le> length s") (auto simp: indexOfFrom_def min_def indexOfAux_absent absent_def occursAt_def)

lemma toLowerCase_map:
  "lowersInPlace s \<Longrightarrow> toLowerCase s = map (\<lambda>c. hd (lowerUnit c)) s"
  by (induction s) (auto simp: lowersInPlace_def toLowerCase_def lowerUnit_def)

lemma toLowerCase_drop:
  "lowersInPlace s \<Longrightarrow> toLowerCase (drop i s) = drop i (toLowerCase s)"
proof -
  assume a: "lowersInPlace s"
  then have "lowersInPlace (drop i s)"
    by (auto simp: lowersInPlace_def dest: in_set_dropD)
  then show ?thesis by (simp add: toLowerCase_map a drop_map)
qed

lemma toLowerCase_length: "lowersInPlace s \<Longrightarrow> length (toLowerCase s) = length s"
  by (simp add: toLowerCase_map)

lemma inject_splits:
  "injectApiBridge h = take (bridgeOffset h) h @ bridge @ drop (bridgeOffset h) h"
  by (simp add: injectApiBridge_def bridgeOffset_def Let_def sliceTo_def sliceFrom_def min_def)

lemma needles_nonempty [simp]:
  "lit ''</head>'' \<noteq> []" "lit ''<body'' \<noteq> []" "lit ''>'' \<noteq> []"
  by (simp_all add: lit_def)

lemma offset_head:
  assumes "lowersInPlace h" and "firstAt (lit ''</head>'') (toLowerCase h) i"
  shows "bridgeOffset h = i" and "prefix (lit ''</head>'') (toLowerCase (drop i h))"
proof -
  have ix: "indexOf (toLowerCase h) (lit ''</head>'') = int i"
    using assms(2) by (simp add: indexOf_first)
  have "i < length (toLowerCase h)"
    using assms(2) occursAt_length [of "lit ''</head>''" "toLowerCase h" i]
    by (simp add: firstAt_def)
  then have "i < length h" using assms(1) by (simp add: toLowerCase_length)
  then show "bridgeOffset h = i" by (simp add: bridgeOffset_def ix)
  show "prefix (lit ''</head>'') (toLowerCase (drop i h))"
    using assms by (simp add: toLowerCase_drop firstAt_def occursAt_def)
qed

lemma offset_body:
  assumes "lowersInPlace h" and "absent (lit ''</head>'') (toLowerCase h)"
    and "firstAt (lit ''<body'') (toLowerCase h) j"
  shows "firstAt (lit ''>'') (drop j h) k \<Longrightarrow> bridgeOffset h = j + k + 1"
    and "firstAt (lit ''>'') (drop j h) k \<Longrightarrow> h ! (j + k) = 62"
    and "absent (lit ''>'') (drop j h) \<Longrightarrow> bridgeOffset h = 0"
    and "prefix (lit ''<body'') (toLowerCase (drop j h))"
proof -
  have hd: "indexOf (toLowerCase h) (lit ''</head>'') = -1"
    using assms(2) by (simp add: indexOf_absent)
  have bd: "indexOf (toLowerCase h) (lit ''<body'') = int j"
    using assms(3) by (simp add: indexOf_first)
  have "j < length (toLowerCase h)"
    using assms(3) occursAt_length [of "lit ''<body''" "toLowerCase h" j]
    by (simp add: firstAt_def)
  then have j: "j < length h" using assms(1) by (simp add: toLowerCase_length)
  show "prefix (lit ''<body'') (toLowerCase (drop j h))"
    using assms by (simp add: toLowerCase_drop firstAt_def occursAt_def)
  {
    assume f: "firstAt (lit ''>'') (drop j h) k"
    have gt: "indexOfFrom h (lit ''>'') j = int (j + k)"
      using f j by (simp add: indexOfFrom_first)
    have k: "k < length (drop j h)"
      using f occursAt_length [of "lit ''>''" "drop j h" k] by (simp add: firstAt_def)
    then have "j + k + 1 \<le> length h" by simp
    then show "bridgeOffset h = j + k + 1"
      by (simp add: bridgeOffset_def hd bd gt Let_def nat_add_distrib)
    from f have "prefix (lit ''>'') (drop k (drop j h))" by (simp add: firstAt_def occursAt_def)
    then obtain zs where "drop (j + k) h = 62 # zs"
      by (auto simp: prefix_def lit_def add.commute)
    then show "h ! (j + k) = 62"
      by (metis nth_via_drop)
  }
  {
    assume a: "absent (lit ''>'') (drop j h)"
    have "indexOfFrom h (lit ''>'') j = -1" using a by (simp add: indexOfFrom_absent)
    then show "bridgeOffset h = 0" by (simp add: bridgeOffset_def hd bd Let_def)
  }
qed

lemma offset_neither:
  assumes "absent (lit ''</head>'') (toLowerCase h)" and "absent (lit ''<body'') (toLowerCase h)"
  shows "bridgeOffset h = 0"
  using assms by (simp add: bridgeOffset_def indexOf_absent)

lemma firstAt_exists:
  assumes "occursAt needle s i"
  shows "\<exists>i. firstAt needle s i"
proof -
  let ?m = "LEAST i. occursAt needle s i"
  have "occursAt needle s ?m" using assms by (rule LeastI)
  moreover have "\<forall>j<?m. \<not> occursAt needle s j" using not_less_Least by blast
  ultimately show ?thesis unfolding firstAt_def by blast
qed

lemma indexOf_absent_iff:
  assumes "needle \<noteq> []"
  shows "absent needle s \<longleftrightarrow> indexOf s needle = -1"
proof
  assume "absent needle s"
  then show "indexOf s needle = -1" using assms by (simp add: indexOf_absent)
next
  assume m: "indexOf s needle = -1"
  show "absent needle s"
  proof (rule ccontr)
    assume "\<not> absent needle s"
    then obtain i where "occursAt needle s i" by (auto simp: absent_def)
    then obtain i' where "firstAt needle s i'" using firstAt_exists by blast
    then have "indexOf s needle = int i'" using assms by (simp add: indexOf_first)
    then show False using m by simp
  qed
qed

lemma indexOf_first_iff:
  assumes "needle \<noteq> []"
  shows "firstAt needle s i \<longleftrightarrow> indexOf s needle = int i"
proof
  assume "firstAt needle s i"
  then show "indexOf s needle = int i" using assms by (simp add: indexOf_first)
next
  assume m: "indexOf s needle = int i"
  then have "\<not> absent needle s" using assms by (simp add: indexOf_absent_iff)
  then obtain i0 where "occursAt needle s i0" by (auto simp: absent_def)
  then obtain i' where f: "firstAt needle s i'" using firstAt_exists by blast
  then have "indexOf s needle = int i'" using assms by (simp add: indexOf_first)
  then have "i' = i" using m by simp
  then show "firstAt needle s i" using f by simp
qed

text \<open>
  C9 (as amended). For an artifact without the code unit U+0130, the result of the
  injection is the artifact with the bridge put in at one position and nothing else
  changed, and that position is: the first place where the lowered text has
  \<open></head>\<close>, when there is one, so that the closing head marker follows the bridge
  at once; else, when the lowered text has \<open><body\<close>, right behind the first \<open>>\<close> at or
  after its first place, or the very start when no \<open>>\<close> follows; else the very start.
\<close>

theorem inject_position:
  assumes "lowersInPlace h"
  shows "injectApiBridge h = take (bridgeOffset h) h @ bridge @ drop (bridgeOffset h) h \<and>
         (firstAt (lit ''</head>'') (toLowerCase h) i \<longrightarrow>
            bridgeOffset h = i \<and> prefix (lit ''</head>'') (toLowerCase (drop i h))) \<and>
         (absent (lit ''</head>'') (toLowerCase h) \<and> firstAt (lit ''<body'') (toLowerCase h) j \<longrightarrow>
            prefix (lit ''<body'') (toLowerCase (drop j h)) \<and>
            (firstAt (lit ''>'') (drop j h) k \<longrightarrow>
               bridgeOffset h = j + k + 1 \<and> h ! (j + k) = 62) \<and>
            (absent (lit ''>'') (drop j h) \<longrightarrow> bridgeOffset h = 0)) \<and>
         (absent (lit ''</head>'') (toLowerCase h) \<and> absent (lit ''<body'') (toLowerCase h) \<longrightarrow>
            bridgeOffset h = 0)"
  using assms inject_splits offset_head offset_body offset_neither by blast

lemma sampleDocument_lowered: "toLowerCase sampleDocument = sampleDocument"
  by (simp add: toLowerCase_def sampleDocument_def lit_def lowerUnit_def)

theorem inject_position_witness:
  "injectApiBridge sampleDocument =
     lit ''<html><body>'' @ bridge @ lit ''chart</body></html>'' \<and>
   bridgeOffset sampleDocument = 12 \<and> sampleDocument ! 11 = 62"
proof -
  have l: "lowersInPlace sampleDocument"
    by (simp add: lowersInPlace_def sampleDocument_def lit_def)
  have a: "absent (lit ''</head>'') (toLowerCase sampleDocument)"
    by (simp add: indexOf_absent_iff sampleDocument_lowered)
       (simp add: indexOf_def indexOfFrom_def sampleDocument_def lit_def)
  have b: "firstAt (lit ''<body'') (toLowerCase sampleDocument) 6"
    by (simp add: indexOf_first_iff sampleDocument_lowered)
       (simp add: indexOf_def indexOfFrom_def sampleDocument_def lit_def)
  have c: "firstAt (lit ''>'') (drop 6 sampleDocument) 5"
    by (simp add: indexOf_first_iff)
       (simp add: indexOf_def indexOfFrom_def sampleDocument_def lit_def)
  from inject_position [OF l, of 0 6 5] a b c
  have o: "bridgeOffset sampleDocument = 12" and n: "sampleDocument ! 11 = 62"
    and s: "injectApiBridge sampleDocument =
            take (bridgeOffset sampleDocument) sampleDocument @ bridge @
            drop (bridgeOffset sampleDocument) sampleDocument"
    by simp_all
  have "take 12 sampleDocument = lit ''<html><body>''"
    and "drop 12 sampleDocument = lit ''chart</body></html>''"
    by (simp_all add: sampleDocument_def lit_def)
  then show ?thesis using o n s by simp
qed

text \<open>
  The claim as the specification has it promises more: that the bridge is installed
  before any generated script runs, whatever the shape of the document. A script in
  the head of the artifact stands before the closing head marker, hence before the
  bridge.
\<close>

theorem inject_position_counterexample:
  "injectApiBridge (lit ''<head><script>go()</script></head>'') =
     lit ''<head><script>go()</script>'' @ bridge @ lit ''</head>'' \<and>
   scriptBeforeBridge (lit ''<head><script>go()</script></head>'')"
proof -
  let ?h = "lit ''<head><script>go()</script></head>''"
  have lo: "toLowerCase ?h = ?h" by (simp add: toLowerCase_def lit_def lowerUnit_def)
  have ix: "indexOf ?h (lit ''</head>'') = 27"
    by (simp add: indexOf_def indexOfFrom_def lit_def)
  have o: "bridgeOffset ?h = 27" by (simp add: bridgeOffset_def lo ix) (simp add: lit_def)
  have t: "take 27 ?h = lit ''<head>'' @ lit ''<script'' @ lit ''>go()</script>''"
    and d: "drop 27 ?h = lit ''</head>''"
    by (simp_all add: lit_def)
  have lt: "toLowerCase (take 27 ?h) = take 27 ?h"
    by (simp add: toLowerCase_def lit_def lowerUnit_def)
  have "sublist (lit ''<script'') (take 27 ?h)" unfolding t by (rule sublist_appendI)
  then have s: "scriptBeforeBridge ?h" by (simp add: scriptBeforeBridge_def o lt)
  have "injectApiBridge ?h = take 27 ?h @ bridge @ drop 27 ?h"
    using inject_splits [of ?h] by (simp add: o)
  also have "\<dots> = lit ''<head><script>go()</script>'' @ bridge @ lit ''</head>''"
    by (simp add: lit_def)
  finally show ?thesis using s by simp
qed

text \<open>
  With U+0130 in front of the marker the position found in the lowered text is one too
  far for the original: the bridge lands inside the closing head marker.
\<close>

lemma inject_after_dotted_capital_i:
  "injectApiBridge ([304] @ lit ''</head>'') = [304, 60] @ bridge @ lit ''/head>''"
proof -
  have "indexOf (toLowerCase ([304] @ lit ''</head>'')) (lit ''</head>'') = 2"
    by (simp add: toLowerCase_def lit_def lowerUnit_def indexOf_def indexOfFrom_def)
  then show ?thesis
    by (simp add: injectApiBridge_def sliceTo_def sliceFrom_def) (simp add: lit_def)
qed

section \<open>The bridge client\<close>

lemma bridgeStep_id [simp]: "correlationId (bridgeStep c e) = correlationId c"
  by (cases e) (simp_all split: option.splits)

lemma bridgeStep_no_match:
  assumes "\<not> deliversMatch (correlationId c) e"
    and "promise c = Pending \<and> listenerRegistered c \<or>
         promise c = Rejected (lit ''API request timeout'') \<and> \<not> listenerRegistered c"
  shows "promise (bridgeStep c e) = Pending \<and> listenerRegistered (bridgeStep c e) \<or>
         promise (bridgeStep c e) = Rejected (lit ''API request timeout'') \<and>
         \<not> listenerRegistered (bridgeStep c e)"
  using assms by (cases e) (auto simp: deliversMatch_def settle_def)

lemma bridgeRun_no_match:
  assumes "list_all (\<lambda>e. \<not> deliversMatch (correlationId c) e) events"
    and "promise c = Pending \<and> listenerRegistered c \<or>
         promise c = Rejected (lit ''API request timeout'') \<and> \<not> listenerRegistered c"
  shows "promise (bridgeRun c events) = Pending \<and> listenerRegistered (bridgeRun c events) \<or>
         promise (bridgeRun c events) = Rejected (lit ''API request timeout'') \<and>
         \<not> listenerRegistered (bridgeRun c events)"
  using assms
proof (induction events arbitrary: c)
  case Nil
  then show ?case by (simp add: bridgeRun_def)
next
  case (Cons e es)
  have "promise (bridgeRun (bridgeStep c e) es) = Pending \<and>
        listenerRegistered (bridgeRun (bridgeStep c e) es) \<or>
        promise (bridgeRun (bridgeStep c e) es) = Rejected (lit ''API request timeout'') \<and>
        \<not> listenerRegistered (bridgeRun (bridgeStep c e) es)"
  proof (rule Cons.IH)
    show "list_all (\<lambda>e'. \<not> deliversMatch (correlationId (bridgeStep c e)) e') es"
      using Cons.prems(1) by simp
    show "promise (bridgeStep c e) = Pending \<and> listenerRegistered (bridgeStep c e) \<or>
          promise (bridgeStep c e) = Rejected (lit ''API request timeout'') \<and>
          \<not> listenerRegistered (bridgeStep c e)"
      using Cons.prems by (intro bridgeStep_no_match) simp_all
  qed
  then show ?case by (simp add: bridgeRun_def)
qed

lemma bridgeStep_timed_out:
  assumes "promise c = Rejected (lit ''API request timeout'')" and "\<not> listenerRegistered c"
  shows "promise (bridgeStep c e) = Rejected (lit ''API request timeout'') \<and>
         \<not> listenerRegistered (bridgeStep c e)"
  using assms by (cases e) (simp_all add: settle_def)

lemma bridgeRun_timed_out:
  assumes "promise c = Rejected (lit ''API request timeout'')" and "\<not> listenerRegistered c"
  shows "promise (bridgeRun c events) = Rejected (lit ''API request timeout'') \<and>
         \<not> listenerRegistered (bridgeRun c events)"
  using assms
proof (induction events arbitrary: c)
  case Nil
  then show ?case by (simp add: bridgeRun_def)
next
  case (Cons e es)
  from bridgeStep_timed_out [OF Cons.prems, of e]
  have "promise (bridgeRun (bridgeStep c e) es) = Rejected (lit ''API request timeout'') \<and>
        \<not> listenerRegistered (bridgeRun (bridgeStep c e) es)"
    by (intro Cons.IH) simp_all
  then show ?case by (simp add: bridgeRun_def)
qed

lemma bridgeRun_append: "bridgeRun c (xs @ ys) = bridgeRun (bridgeRun c xs) ys"
  by (simp add: bridgeRun_def)

lemma bridgeRun_timer:
  assumes "promise c = Pending \<and> listenerRegistered c \<or>
           promise c = Rejected (lit ''API request timeout'') \<and> \<not> listenerRegistered c"
  shows "promise (bridgeRun c [TimerFired]) = Rejected (lit ''API request timeout'') \<and>
         \<not> listenerRegistered (bridgeRun c [TimerFired])"
  using assms by (auto simp: bridgeRun_def settle_def)

text \<open>
  C6. A call arms its timer with 30000 milliseconds. When the timer fires and no
  response with the call's correlation id was delivered before, the promise is
  rejected with \<open>API request timeout\<close> and the listener is removed; and whatever is
  delivered afterwards, a response with the right id included, the promise stays
  rejected with the timeout and the listener stays removed.
\<close>

theorem bridge_timeout:
  assumes "list_all (\<lambda>e. \<not> deliversMatch ident e) before"
  shows "timeoutMs (fst (apiRequestCall ident u) :: 'a bridgeCall) = 30000 \<and>
         promise (bridgeRun (fst (apiRequestCall ident u) :: 'a bridgeCall) (before @ [TimerFired]))
           = Rejected (lit ''API request timeout'') \<and>
         \<not> listenerRegistered (bridgeRun (fst (apiRequestCall ident u) :: 'a bridgeCall) (before @ [TimerFired])) \<and>
         promise (bridgeRun (fst (apiRequestCall ident u) :: 'a bridgeCall) (before @ [TimerFired] @ later))
           = Rejected (lit ''API request timeout'') \<and>
         \<not> listenerRegistered
             (bridgeRun (fst (apiRequestCall ident u) :: 'a bridgeCall) (before @ [TimerFired] @ later))"
proof -
  let ?c = "fst (apiRequestCall ident u) :: 'a bridgeCall"
  have init: "promise ?c = Pending \<and> listenerRegistered ?c \<or>
              promise ?c = Rejected (lit ''API request timeout'') \<and> \<not> listenerRegistered ?c"
    by (simp add: apiRequestCall_def)
  have ident: "correlationId ?c = ident" by (simp add: apiRequestCall_def)
  have b: "promise (bridgeRun ?c before) = Pending \<and> listenerRegistered (bridgeRun ?c before) \<or>
           promise (bridgeRun ?c before) = Rejected (lit ''API request timeout'') \<and>
           \<not> listenerRegistered (bridgeRun ?c before)"
    using assms init by (intro bridgeRun_no_match) (simp_all add: ident)
  have t: "promise (bridgeRun (bridgeRun ?c before) [TimerFired])
             = Rejected (lit ''API request timeout'') \<and>
           \<not> listenerRegistered (bridgeRun (bridgeRun ?c before) [TimerFired])"
    using b by (rule bridgeRun_timer)
  have l: "promise (bridgeRun (bridgeRun (bridgeRun ?c before) [TimerFired]) later)
             = Rejected (lit ''API request timeout'') \<and>
           \<not> listenerRegistered (bridgeRun (bridgeRun (bridgeRun ?c before) [TimerFired]) later)"
    using t by (intro bridgeRun_timed_out) simp_all
  have e1: "bridgeRun ?c (before @ [TimerFired]) = bridgeRun (bridgeRun ?c before) [TimerFired]"
    by (rule bridgeRun_append)
  have e2: "bridgeRun ?c (before @ [TimerFired] @ later) =
            bridgeRun (bridgeRun (bridgeRun ?c before) [TimerFired]) later"
    by (simp only: bridgeRun_append)
  have tm: "timeoutMs ?c = 30000" by (simp add: apiRequestCall_def)
  show ?thesis unfolding e1 e2 using tm t l by blast
qed

lemma bridge_response_settles:
  assumes "isMatchingResponse ident (Some m)"
  shows "promise (bridgeRun (fst (apiRequestCall ident u)) [MessageEvent (Some m), TimerFired]) =
           (if truthy (messageError m)
            then Rejected (case messageError m of Some e \<Rightarrow> e | None \<Rightarrow> [])
            else Fulfilled (messageData m))"
  using assms by (simp add: bridgeRun_def apiRequestCall_def settle_def)

theorem bridge_timeout_witness:
  "promise
     (bridgeRun (fst (apiRequestCall (lit ''req_1_a'') (lit ''/api/x'')))
        ([MessageEvent (Some strayResponse), MessageEvent None] @ [TimerFired] @
         [MessageEvent (Some lateResponse)]))
     = Rejected (lit ''API request timeout'') \<and>
   \<not> listenerRegistered
     (bridgeRun (fst (apiRequestCall (lit ''req_1_a'') (lit ''/api/x'')))
        ([MessageEvent (Some strayResponse), MessageEvent None] @ [TimerFired] @
         [MessageEvent (Some lateResponse)]))"
proof -
  have "list_all (\<lambda>e. \<not> deliversMatch (lit ''req_1_a'') e)
          [MessageEvent (Some strayResponse), MessageEvent None]"
    by (simp add: deliversMatch_def isMatchingResponse_def strayResponse_def lateResponse_def
        lit_def)
  from bridge_timeout [OF this, of "lit ''/api/x''" "[MessageEvent (Some lateResponse)]"]
  show ?thesis by blast
qed

section \<open>The state field\<close>

text \<open>
  No method assigns the field that \<open>getState\<close> returns: every action leaves it as it
  was, so it keeps the value the constructor gave it.
\<close>

lemma state_setState [simp]: "state (setState st w) = state w"
  by (cases st) simp_all

lemma state_persistHistory [simp]: "state (persistHistory w) = state w"
  by (simp add: persistHistory_def)

lemma state_saveHistory [simp]: "state (saveHistory item w) = state w"
  by (simp add: saveHistory_def)

lemma state_replaceHistory [simp]: "state (replaceHistory i item w) = state w"
  by (simp add: replaceHistory_def)

lemma state_catch [simp]: "state (snd (catchGenerationError cfg e w)) = state w"
  by (simp add: catchGenerationError_def Let_def showError_def split: option.splits)

lemma state_showGenerated [simp]: "state (showGenerated b m h now w) = state w"
  by (simp add: showGenerated_def Let_def displayVisualization_def split: option.splits)

lemma state_generate: "state (snd (generateVisualization cfg now w)) = state w"
  by (simp add: generateVisualization_def Let_def showError_def hideError_def
      split: callOutcome.splits)

lemma state_clear: "clearVisualization w = Inr v \<Longrightarrow> state v = state w"
  by (auto simp: clearVisualization_def Let_def hideError_def split: if_splits)

lemma state_handleMessage: "state (snd (handleMessage cfg m w)) = state w"
  by (simp add: handleMessage_def handleApiRequest_def sendMessageToIframe_def Let_def showError_def
      split: option.splits callOutcome.splits)

lemma state_perform: "state (perform cfg a w) = state w"
  by (cases a)
     (simp_all add: state_generate state_handleMessage selectHistory_def removeHistory_def
        clearHistory_def removePersisted_def inputText_def toggleInputSection_def setTheme_def
        destroy_def displayVisualization_def Let_def state_clear split: sum.splits)

lemma state_performAll: "state (performAll cfg actions w) = state w"
  unfolding performAll_def
  by (induction actions arbitrary: w) (simp_all add: state_perform)

lemma state_create: "create found fails stored cfg = Inr w \<Longrightarrow> state w = IDLE"
  by (auto simp: create_def initialWidget_def split: option.splits)

lemma reachable_state: "reachable cfg w \<Longrightarrow> state w = IDLE"
  by (auto simp: reachable_def state_performAll state_create)

section \<open>History store\<close>

lemma history_persistHistory [simp]: "history (persistHistory w) = history w"
  by (simp add: persistHistory_def)

lemma history_saveHistory: "history (saveHistory item w) = take 10 (item # history w)"
  by (simp add: saveHistory_def)

lemma take_take_cons:
  "take 10 (x # take 10 ys) = take 10 (x # ys)"
  by (simp add: take_Cons' min_def)

lemma saveAll_snoc: "saveAll (xs @ [x]) w = saveHistory x (saveAll xs w)"
  by (simp add: saveAll_def)

lemma history_saveAll:
  "items \<noteq> [] \<Longrightarrow> history (saveAll items w) = take 10 (rev items @ history w)"
proof (induction items rule: rev_induct)
  case Nil
  then show ?case by simp
next
  case (snoc x xs)
  show ?case
  proof (cases "xs = []")
    case True
    then show ?thesis by (simp add: saveAll_def history_saveHistory)
  next
    case False
    then have "history (saveAll xs w) = take 10 (rev xs @ history w)" by (rule snoc.IH)
    then show ?thesis
      by (simp only: saveAll_snoc history_saveHistory take_take_cons rev_append rev.simps
          append_Nil append_Cons)
  qed
qed

text \<open>
  C5. Every save leaves at most ten entries with the new one in front, and eleven saves
  into an empty history leave exactly ten entries: the ten saved last, the newest first.
\<close>

theorem history_bound:
  "length (history (saveHistory item w)) \<le> 10 \<and>
   hd (history (saveHistory item w)) = item \<and>
   (history w = [] \<and> length items = 11 \<longrightarrow>
      history (saveAll items w) = rev (tl items) \<and>
      length (history (saveAll items w)) = 10)"
proof -
  have "history w = [] \<and> length items = 11 \<longrightarrow>
          history (saveAll items w) = rev (tl items) \<and> length (history (saveAll items w)) = 10"
  proof
    assume h: "history w = [] \<and> length items = 11"
    then obtain x xs where items: "items = x # xs" and len: "length xs = 10"
      by (cases items) auto
    have "history (saveAll items w) = take 10 (rev items @ history w)"
      by (rule history_saveAll) (simp add: items)
    also have "\<dots> = rev xs" using h len by (simp add: items)
    finally have "history (saveAll items w) = rev (tl items)" by (simp add: items)
    then show "history (saveAll items w) = rev (tl items) \<and>
               length (history (saveAll items w)) = 10"
      using len by (simp add: items)
  qed
  then show ?thesis by (simp add: history_saveHistory)
qed

theorem history_bound_witness:
  "history (saveAll (map sampleItem [0, 1, 2, 3, 4, 5, 6, 7, 8, 9, 10])
              freshWidget) =
   map sampleItem [10, 9, 8, 7, 6, 5, 4, 3, 2, 1]"
  using history_bound [of "sampleItem 0" freshWidget
      "map sampleItem [0, 1, 2, 3, 4, 5, 6, 7, 8, 9, 10]"]
  by (simp add: freshWidget_def initialWidget_def loadHistory_def)

section \<open>Generating a visualization\<close>

lemma last_dropWhile: "dropWhile P xs \<noteq> [] \<Longrightarrow> last (dropWhile P xs) = last xs"
  by (induction xs) (auto split: if_splits)

lemma trimmed_trim: "trimmed (trim s)"
proof (cases "trim s = []")
  case True
  then show ?thesis by (simp add: trimmed_def)
next
  case False
  let ?d = "dropWhile isWhiteSpace s"
  let ?e = "dropWhile isWhiteSpace (rev ?d)"
  have e: "?e \<noteq> []" using False by (simp add: trim_def)
  have d: "?d \<noteq> []"
  proof
    assume "?d = []"
    then have "?e = []" by (simp only: rev.simps dropWhile.simps)
    then show False using e by (simp only: simp_thms)
  qed
  have "last (trim s) = hd ?e" using e by (simp add: trim_def last_rev)
  moreover have "\<not> isWhiteSpace (hd ?e)" using e by (rule hd_dropWhile)
  moreover have "hd (trim s) = last ?e" using e by (simp add: trim_def hd_rev)
  moreover have "last ?e = last (rev ?d)" using e by (rule last_dropWhile)
  moreover have "last (rev ?d) = hd ?d" using d by (simp add: last_rev)
  moreover have "\<not> isWhiteSpace (hd ?d)" using d by (rule hd_dropWhile)
  ultimately show ?thesis by (simp add: trimmed_def)
qed

lemma trim_idem [simp]: "trim (trim s) = trim s"
  by (rule trim_trimmed) (rule trimmed_trim)

lemma trim_sanitize [simp]: "trim (sanitizeHtmlResponse raw) = sanitizeHtmlResponse raw"
  by (simp add: sanitizeHtmlResponse_def)

lemma generate_unmounted:
  "\<not> mounted w \<Longrightarrow> generateVisualization cfg now w = (RejectedWith nullPropertyError, w)"
  by (simp add: generateVisualization_def)

lemma generate_blank:
  "mounted w \<Longrightarrow> trim (textareaValue w) = [] \<Longrightarrow>
   generateVisualization cfg now w =
     (Resolved, showError (lit ''Please enter a visualization request'') w)"
  by (simp add: generateVisualization_def)

lemma promptsSent_setState [simp]: "promptsSent (setState st w) = promptsSent w"
  by (cases st) simp_all

lemma promptsSent_catch [simp]: "promptsSent (snd (catchGenerationError cfg e w)) = promptsSent w"
  by (simp add: catchGenerationError_def Let_def showError_def split: option.splits)

lemma promptsSent_showGenerated [simp]: "promptsSent (showGenerated b m h now w) = promptsSent w"
  by (simp add: showGenerated_def Let_def displayVisualization_def saveHistory_def
      replaceHistory_def persistHistory_def split: option.splits)

lemma generate_unfold:
  assumes "mounted w" and "trim (textareaValue w) \<noteq> []"
  shows "generateVisualization cfg now w =
         afterCompletion cfg now w (callChatCompletion cfg (nextPrompt cfg w))"
  using assms
  by (cases "isImprovementRequest w"; cases "callChatCompletion cfg (nextPrompt cfg w)")
     (simp_all add: generateVisualization_def afterCompletion_def awaitingCompletion_def
        nextPrompt_def Let_def hideError_def existingCode_def)

lemma promptsSent_awaiting [simp]:
  "promptsSent (awaitingCompletion cfg w) = promptsSent w @ [nextPrompt cfg w]"
  by (simp add: awaitingCompletion_def Let_def hideError_def)

lemma promptsSent_after [simp]:
  "promptsSent (snd (afterCompletion cfg now w outcome)) = promptsSent w @ [nextPrompt cfg w]"
  by (cases outcome) (simp_all add: afterCompletion_def)

lemma generate_promptsSent:
  assumes "mounted w" and "trim (textareaValue w) \<noteq> []"
  shows "promptsSent (snd (generateVisualization cfg now w)) = promptsSent w @ [nextPrompt cfg w]"
  by (simp add: generate_unfold [OF assms])

subsection \<open>The two templates differ\<close>

lemma improvement_prompt_nth8:
  "buildImprovementPrompt a orig imps code ! 8 = 112"
  by (simp add: buildImprovementPrompt_def improvementPromptHead_def lit_def nth_append)

lemma visualization_prompt_nth8:
  "buildVisualizationPrompt a m ! 8 = 97"
  by (simp add: buildVisualizationPrompt_def visualizationPromptHead_def lit_def nth_append)

lemma templates_differ:
  "buildImprovementPrompt a orig imps code \<noteq> buildVisualizationPrompt a' m"
proof
  assume "buildImprovementPrompt a orig imps code = buildVisualizationPrompt a' m"
  then have "buildImprovementPrompt a orig imps code ! 8 = buildVisualizationPrompt a' m ! 8"
    by simp
  then show False by (simp add: improvement_prompt_nth8 visualization_prompt_nth8)
qed

lemma templates_differ_sym:
  "buildVisualizationPrompt a' m \<noteq> buildImprovementPrompt a orig imps code"
  using templates_differ [of a orig imps code a' m] by (rule not_sym)

text \<open>
  The branch as the source writes it. With non-empty text in a mounted instance, the
  call sends exactly one prompt; it is an instance of the improvement template if and
  only if an artifact is held and the state field is \<open>DISPLAYING\<close>, and an instance
  of the fresh-generation template if and only if not.
\<close>

lemma template_branch:
  assumes "mounted w" and "trim (textareaValue w) \<noteq> []"
  shows "\<exists>sent.
           promptsSent (snd (generateVisualization cfg now w)) = promptsSent w @ [sent] \<and>
           ((\<exists>original improvements code.
               sent = buildImprovementPrompt (apiDescription cfg) original improvements code)
            \<longleftrightarrow> (lastGeneratedCode w \<noteq> None \<and> getState w = DISPLAYING)) \<and>
           ((\<exists>message. sent = buildVisualizationPrompt (apiDescription cfg) message)
            \<longleftrightarrow> \<not> (lastGeneratedCode w \<noteq> None \<and> getState w = DISPLAYING))"
proof (intro exI conjI)
  show "promptsSent (snd (generateVisualization cfg now w)) = promptsSent w @ [nextPrompt cfg w]"
    using assms by (rule generate_promptsSent)
  show "(\<exists>original improvements code.
           nextPrompt cfg w = buildImprovementPrompt (apiDescription cfg) original improvements code)
        \<longleftrightarrow> (lastGeneratedCode w \<noteq> None \<and> getState w = DISPLAYING)"
  proof (cases "isImprovementRequest w")
    case True
    then show ?thesis
      unfolding nextPrompt_def by (auto simp: isImprovementRequest_def getState_def)
  next
    case False
    then show ?thesis
      unfolding nextPrompt_def
      by (auto simp: isImprovementRequest_def getState_def templates_differ templates_differ_sym)
  qed
  show "(\<exists>message. nextPrompt cfg w = buildVisualizationPrompt (apiDescription cfg) message)
        \<longleftrightarrow> \<not> (lastGeneratedCode w \<noteq> None \<and> getState w = DISPLAYING)"
  proof (cases "isImprovementRequest w")
    case True
    then show ?thesis
      unfolding nextPrompt_def
      by (auto simp: isImprovementRequest_def getState_def templates_differ templates_differ_sym)
  next
    case False
    then show ?thesis
      unfolding nextPrompt_def by (auto simp: isImprovementRequest_def getState_def)
  qed
qed

subsection \<open>What the parts of a generation leave and write\<close>

lemma awaiting_fields [simp]:
  "history (awaitingCompletion cfg w) = history w"
  "localStorage (awaitingCompletion cfg w) = localStorage w"
  "storageFails (awaitingCompletion cfg w) = storageFails w"
  "mounted (awaitingCompletion cfg w) = mounted w"
  "activeHistoryIndex (awaitingCompletion cfg w) = activeHistoryIndex w"
  "errorsReported (awaitingCompletion cfg w) = errorsReported w"
  "textareaValue (awaitingCompletion cfg w) = textareaValue w"
  "state (awaitingCompletion cfg w) = state w"
  by (simp_all add: awaitingCompletion_def Let_def hideError_def)

lemma awaiting_originalPrompt:
  "originalPrompt (awaitingCompletion cfg w) =
     (if isImprovementRequest w then originalPrompt w else Some (trim (textareaValue w)))"
  by (simp add: awaitingCompletion_def Let_def hideError_def)

lemma setState_fields [simp]:
  "history (setState st w) = history w"
  "localStorage (setState st w) = localStorage w"
  "storageFails (setState st w) = storageFails w"
  "mounted (setState st w) = mounted w"
  "activeHistoryIndex (setState st w) = activeHistoryIndex w"
  "errorsReported (setState st w) = errorsReported w"
  "lastGeneratedCode (setState st w) = lastGeneratedCode w"
  "originalPrompt (setState st w) = originalPrompt w"
  "improvementPrompts (setState st w) = improvementPrompts w"
  "textareaValue (setState st w) = textareaValue w"
  "errorShown (setState st w) = errorShown w"
  "errorText (setState st w) = errorText w"
  "srcdoc (setState st w) = srcdoc w"
  "iframe (setState st w) = iframe w"
  by (cases st; simp)+

lemma setState_btnText:
  "btnText (setState st w) =
     (case st of GENERATING \<Rightarrow> lit ''Generating...''
               | DISPLAYING \<Rightarrow> lit ''Improve Visualization''
               | IDLE \<Rightarrow> lit ''Generate Visualization''
               | ERROR \<Rightarrow> lit ''Generate Visualization'')"
  by (cases st) simp_all

lemma catch_fields [simp]:
  "history (snd (catchGenerationError cfg e w)) = history w"
  "localStorage (snd (catchGenerationError cfg e w)) = localStorage w"
  "mounted (snd (catchGenerationError cfg e w)) = mounted w"
  "activeHistoryIndex (snd (catchGenerationError cfg e w)) = activeHistoryIndex w"
  "lastGeneratedCode (snd (catchGenerationError cfg e w)) = lastGeneratedCode w"
  "originalPrompt (snd (catchGenerationError cfg e w)) = originalPrompt w"
  "improvementPrompts (snd (catchGenerationError cfg e w)) = improvementPrompts w"
  "errorShown (snd (catchGenerationError cfg e w))"
  "btnText (snd (catchGenerationError cfg e w)) = lit ''Generate Visualization''"
  "errorText (snd (catchGenerationError cfg e w)) =
     (if instanceofError e then errorMessageOf e else lit ''Failed to generate visualization'')"
  by (simp_all add: catchGenerationError_def Let_def showError_def split: option.splits)

lemma catch_reported:
  "errorsReported (snd (catchGenerationError cfg e w)) =
     (case onError cfg of
        None \<Rightarrow> errorsReported w
      | Some handler \<Rightarrow>
          errorsReported w @
          [if instanceofError e then e
           else ErrorObject (lit ''Failed to generate visualization'')])"
  by (simp add: catchGenerationError_def Let_def showError_def split: option.splits)

lemma catch_settles:
  "fst (catchGenerationError cfg e w) =
     (case onError cfg of
        None \<Rightarrow> Resolved
      | Some handler \<Rightarrow>
          (case handler (if instanceofError e then e
                         else ErrorObject (lit ''Failed to generate visualization'')) of
             None \<Rightarrow> Resolved
           | Some t \<Rightarrow> RejectedWith t))"
  by (simp add: catchGenerationError_def Let_def split: option.splits)

lemma showGenerated_fields [simp]:
  "lastGeneratedCode (showGenerated imp m h now w) = Some h"
  "btnText (showGenerated imp m h now w) = lit ''Improve Visualization''"
  "mounted (showGenerated imp m h now w) = mounted w"
  "textareaValue (showGenerated imp m h now w) = []"
  "srcdoc (showGenerated imp m h now w) = injectApiBridge h"
  "errorsReported (showGenerated imp m h now w) = errorsReported w"
  "originalPrompt (showGenerated imp m h now w) = originalPrompt w"
  by (simp_all add: showGenerated_def Let_def displayVisualization_def saveHistory_def
      replaceHistory_def persistHistory_def split: option.splits)

lemma showGenerated_history_new:
  "\<not> imp \<or> activeHistoryIndex w = None \<Longrightarrow>
   history (showGenerated imp m h now w) =
     take 10 (\<lparr>prompt = historyPrompt w m, html = h, timestamp = now\<rparr> # history w) \<and>
   activeHistoryIndex (showGenerated imp m h now w) = Some 0"
  by (auto simp: showGenerated_def Let_def displayVisualization_def saveHistory_def
      persistHistory_def historyPrompt_def split: option.splits)

lemma showGenerated_history_replace:
  "imp \<Longrightarrow> activeHistoryIndex w = Some idx \<Longrightarrow> idx < length (history w) \<Longrightarrow>
   history (showGenerated imp m h now w) =
     (history w)[idx := \<lparr>prompt = historyPrompt w m, html = h, timestamp = now\<rparr>] \<and>
   activeHistoryIndex (showGenerated imp m h now w) = Some idx"
  by (simp add: showGenerated_def Let_def displayVisualization_def replaceHistory_def
      persistHistory_def historyPrompt_def)

lemma inputText_fields [simp]:
  "textareaValue (inputText v w) = v"
  "mounted (inputText v w) = mounted w"
  "state (inputText v w) = state w"
  "promptsSent (inputText v w) = promptsSent w"
  "lastGeneratedCode (inputText v w) = lastGeneratedCode w"
  "history (inputText v w) = history w"
  "localStorage (inputText v w) = localStorage w"
  "activeHistoryIndex (inputText v w) = activeHistoryIndex w"
  "errorsReported (inputText v w) = errorsReported w"
  "originalPrompt (inputText v w) = originalPrompt w"
  "storageFails (inputText v w) = storageFails w"
  by (simp_all add: inputText_def)

lemma freshWidget_fields [simp]:
  "mounted freshWidget"
  "state freshWidget = IDLE"
  "history freshWidget = []"
  "localStorage freshWidget = Missing"
  "promptsSent freshWidget = []"
  "errorsReported freshWidget = []"
  "lastGeneratedCode freshWidget = None"
  "activeHistoryIndex freshWidget = None"
  "originalPrompt freshWidget = None"
  "\<not> storageFails freshWidget"
  by (simp_all add: freshWidget_def initialWidget_def loadHistory_def)

lemma generate_mounted [simp]: "mounted (snd (generateVisualization cfg now w)) = mounted w"
  by (simp add: generateVisualization_def Let_def showError_def hideError_def
      split: callOutcome.splits)

lemma trim_plain:
  "trim (lit ''chart'') = lit ''chart''"
  "trim (lit ''make it red'') = lit ''make it red''"
  by (simp_all add: trim_def lit_def isWhiteSpace_def)

lemma lit_nonempty [simp]:
  "lit ''chart'' \<noteq> []" "lit ''make it red'' \<noteq> []" "sampleDocument \<noteq> []"
  by (simp_all add: lit_def sampleDocument_def)

lemma sanitize_sampleDocument [simp]: "sanitizeHtmlResponse sampleDocument = sampleDocument"
  by (rule sanitize_clean)
     (simp_all add: trimmed_def sampleDocument_def lit_def isWhiteSpace_def fence_def suffix_def)

lemma sanitize_empty [simp]: "sanitizeHtmlResponse [] = []"
  by (simp add: sanitizeHtmlResponse_def trim_def stripTaggedFence_def stripLeadingFence_def
      fence_def)

lemma sample_calls [simp]:
  "callChatCompletion sampleConfig p = Resolves sampleDocument"
  "callChatCompletion emptyAnswerConfig p = Resolves []"
  "callChatCompletion rejectingConfig p = Rejects (ErrorObject (lit ''offline''))"
  "callChatCompletion throwingHandlerConfig p = Rejects (ErrorObject (lit ''offline''))"
  by (simp_all add: callChatCompletion_def sampleConfig_def emptyAnswerConfig_def
      rejectingConfig_def throwingHandlerConfig_def)

lemma sample_fields [simp]:
  "apiDescription sampleConfig = lit ''{}''"
  "onError sampleConfig = Some (\<lambda>e. None)"
  "onError emptyAnswerConfig = Some (\<lambda>e. None)"
  "onError rejectingConfig = Some (\<lambda>e. None)"
  "onError throwingHandlerConfig = Some (\<lambda>e. Some e)"
  by (simp_all add: sampleConfig_def emptyAnswerConfig_def rejectingConfig_def
      throwingHandlerConfig_def)

lemma create_sample:
  "create found False Missing sampleConfig = Inr freshWidget"
  by (simp add: create_def resolveContainer_def validateConfig_def sampleConfig_def
      freshWidget_def lit_def)

text \<open>
  C1, on the code. A host constructs an instance with a valid configuration and an
  empty store, the user types \<open>chart\<close>, and the completion resolves to the document
  \<open><html><body>chart</body></html>\<close>. The promise resolves, the button reads
  \<open>Improve Visualization\<close>, the history holds the one new entry with the document as
  its artifact; and \<open>getState\<close> still returns \<open>IDLE\<close>, not \<open>DISPLAYING\<close>.
\<close>

theorem first_generation_state:
  "create (\<lambda>sel. True) False Missing sampleConfig = Inr freshWidget \<and>
   fst (generateVisualization sampleConfig 7 (inputText (lit ''chart'') freshWidget)) = Resolved \<and>
   getState (snd (generateVisualization sampleConfig 7 (inputText (lit ''chart'') freshWidget)))
     = IDLE \<and>
   btnText (snd (generateVisualization sampleConfig 7 (inputText (lit ''chart'') freshWidget)))
     = lit ''Improve Visualization'' \<and>
   history (snd (generateVisualization sampleConfig 7 (inputText (lit ''chart'') freshWidget)))
     = [\<lparr>prompt = lit ''chart'', html = sampleDocument, timestamp = 7\<rparr>] \<and>
   sanitizeHtmlResponse sampleDocument = sampleDocument"
proof -
  let ?w = "inputText (lit ''chart'') freshWidget"
  have g: "generateVisualization sampleConfig 7 ?w =
           afterCompletion sampleConfig 7 ?w (callChatCompletion sampleConfig (nextPrompt sampleConfig ?w))"
    by (rule generate_unfold) (simp_all add: trim_plain)
  have a: "afterCompletion sampleConfig 7 ?w (Resolves sampleDocument) =
           (Resolved, showGenerated False (lit ''chart'') sampleDocument 7
                        (awaitingCompletion sampleConfig ?w))"
    by (simp add: afterCompletion_def isImprovementRequest_def trim_plain)
  have h: "history (showGenerated False (lit ''chart'') sampleDocument 7
                      (awaitingCompletion sampleConfig ?w)) =
           [\<lparr>prompt = lit ''chart'', html = sampleDocument, timestamp = 7\<rparr>]"
    by (simp add: showGenerated_history_new historyPrompt_def awaiting_originalPrompt
        isImprovementRequest_def trim_plain)
  show ?thesis
    by (simp add: create_sample g a h getState_def)
qed

lemma generate_sample:
  assumes "mounted w" and "trim (textareaValue w) \<noteq> []" and "state w = IDLE"
  shows "generateVisualization sampleConfig now w =
         (Resolved, showGenerated False (trim (textareaValue w)) sampleDocument now
                      (awaitingCompletion sampleConfig w))"
  by (simp add: generate_unfold [OF assms(1,2)] afterCompletion_def isImprovementRequest_def
      assms(3))

text \<open>
  Whatever happened before, a mounted instance that a host can hold sends the
  fresh-generation prompt: the improvement branch needs the state field to be
  \<open>DISPLAYING\<close>, and no action writes that field.
\<close>

lemma reachable_sends_fresh_prompt:
  assumes "reachable cfg w" and "mounted w" and "trim (textareaValue w) \<noteq> []"
  shows "promptsSent (snd (generateVisualization cfg now w)) =
         promptsSent w @ [buildVisualizationPrompt (apiDescription cfg) (trim (textareaValue w))]"
  using reachable_state [OF assms(1)]
  by (simp add: generate_promptsSent [OF assms(2,3)] nextPrompt_def isImprovementRequest_def)

text \<open>
  C2, on the code. After the generation of C1 the instance holds an artifact and its
  last \<open>setState\<close> was the one for \<open>DISPLAYING\<close>: the button reads
  \<open>Improve Visualization\<close>. The field that the branch reads is still \<open>IDLE\<close>, so for the
  next request the fresh-generation template is chosen, and the prompt is no instance of
  the improvement template.
\<close>

theorem held_artifact_fresh_template:
  "lastGeneratedCode
     (inputText (lit ''make it red'')
        (snd (generateVisualization sampleConfig 7 (inputText (lit ''chart'') freshWidget))))
     = Some sampleDocument \<and>
   btnText (snd (generateVisualization sampleConfig 7 (inputText (lit ''chart'') freshWidget)))
     = lit ''Improve Visualization'' \<and>
   getState
     (inputText (lit ''make it red'')
        (snd (generateVisualization sampleConfig 7 (inputText (lit ''chart'') freshWidget))))
     = IDLE \<and>
   last (promptsSent
     (snd (generateVisualization sampleConfig 8
        (inputText (lit ''make it red'')
           (snd (generateVisualization sampleConfig 7 (inputText (lit ''chart'') freshWidget)))))))
     = buildVisualizationPrompt (lit ''{}'') (lit ''make it red'') \<and>
   (\<forall>original improvements code.
      last (promptsSent
        (snd (generateVisualization sampleConfig 8
           (inputText (lit ''make it red'')
              (snd (generateVisualization sampleConfig 7 (inputText (lit ''chart'') freshWidget)))))))
      \<noteq> buildImprovementPrompt (lit ''{}'') original improvements code)"
proof -
  let ?u = "inputText (lit ''chart'') freshWidget"
  let ?w1 = "snd (generateVisualization sampleConfig 7 ?u)"
  let ?v1 = "inputText (lit ''make it red'') ?w1"
  have g1: "generateVisualization sampleConfig 7 ?u =
            (Resolved, showGenerated False (lit ''chart'') sampleDocument 7
                         (awaitingCompletion sampleConfig ?u))"
    using generate_sample [of ?u 7] by (simp add: trim_plain)
  have s1: "state ?w1 = IDLE" by (simp add: state_generate)
  have l1: "lastGeneratedCode ?v1 = Some sampleDocument" by (simp add: g1)
  have b1: "btnText ?w1 = lit ''Improve Visualization''" by (simp add: g1)
  have p2: "promptsSent (snd (generateVisualization sampleConfig 8 ?v1)) =
            promptsSent ?v1 @ [nextPrompt sampleConfig ?v1]"
    by (rule generate_promptsSent) (simp_all add: trim_plain)
  have n2: "nextPrompt sampleConfig ?v1 = buildVisualizationPrompt (lit ''{}'') (lit ''make it red'')"
    by (simp add: nextPrompt_def isImprovementRequest_def s1 trim_plain)
  have last: "last (promptsSent (snd (generateVisualization sampleConfig 8 ?v1))) =
              buildVisualizationPrompt (lit ''{}'') (lit ''make it red'')"
    by (simp add: p2 n2)
  show ?thesis
    using l1 b1 s1 last by (simp add: getState_def templates_differ_sym)
qed

text \<open>
  C3, on the code. After the generation of C1 the instance holds the artifact and shows
  the button \<open>Improve Visualization\<close>; the user types \<open>make it red\<close> and submits. The
  prompt handed to the completion callback is the fresh-generation prompt for
  \<open>make it red\<close>: it is built from the API description and the new text alone, the
  earlier request is dropped from the conversation context, and the history gets a
  second entry instead of a replaced one.
\<close>

theorem second_request_prompt:
  "lastGeneratedCode
     (snd (generateVisualization sampleConfig 7 (inputText (lit ''chart'') freshWidget)))
     = Some sampleDocument \<and>
   btnText (snd (generateVisualization sampleConfig 7 (inputText (lit ''chart'') freshWidget)))
     = lit ''Improve Visualization'' \<and>
   promptsSent
     (snd (generateVisualization sampleConfig 8
        (inputText (lit ''make it red'')
           (snd (generateVisualization sampleConfig 7 (inputText (lit ''chart'') freshWidget))))))
     = [buildVisualizationPrompt (lit ''{}'') (lit ''chart''),
        buildVisualizationPrompt (lit ''{}'') (lit ''make it red'')] \<and>
   originalPrompt
     (snd (generateVisualization sampleConfig 8
        (inputText (lit ''make it red'')
           (snd (generateVisualization sampleConfig 7 (inputText (lit ''chart'') freshWidget))))))
     = Some (lit ''make it red'') \<and>
   map prompt (history
     (snd (generateVisualization sampleConfig 8
        (inputText (lit ''make it red'')
           (snd (generateVisualization sampleConfig 7 (inputText (lit ''chart'') freshWidget)))))))
     = [lit ''make it red'', lit ''chart'']"
proof -
  let ?w0 = "inputText (lit ''chart'') freshWidget"
  let ?w1 = "snd (generateVisualization sampleConfig 7 ?w0)"
  let ?v1 = "inputText (lit ''make it red'') ?w1"
  let ?w2 = "snd (generateVisualization sampleConfig 8 ?v1)"
  have g1: "generateVisualization sampleConfig 7 ?w0 =
            (Resolved, showGenerated False (lit ''chart'') sampleDocument 7
                         (awaitingCompletion sampleConfig ?w0))"
    using generate_sample [of ?w0 7] by (simp add: trim_plain)
  have s1: "state ?w1 = IDLE" by (simp add: state_generate)
  have g2: "generateVisualization sampleConfig 8 ?v1 =
            (Resolved, showGenerated False (lit ''make it red'') sampleDocument 8
                         (awaitingCompletion sampleConfig ?v1))"
    using generate_sample [of ?v1 8] s1 by (simp add: trim_plain)
  have h1: "history ?w1 = [\<lparr>prompt = lit ''chart'', html = sampleDocument, timestamp = 7\<rparr>]"
    by (simp add: g1 showGenerated_history_new historyPrompt_def awaiting_originalPrompt
        isImprovementRequest_def trim_plain)
  have p1: "promptsSent ?w1 = [buildVisualizationPrompt (lit ''{}'') (lit ''chart'')]"
    by (simp add: generate_promptsSent nextPrompt_def isImprovementRequest_def trim_plain)
  have p2: "promptsSent ?w2 = promptsSent ?v1 @ [nextPrompt sampleConfig ?v1]"
    by (rule generate_promptsSent) (simp_all add: trim_plain)
  have n2: "nextPrompt sampleConfig ?v1 = buildVisualizationPrompt (lit ''{}'') (lit ''make it red'')"
    by (simp add: nextPrompt_def isImprovementRequest_def s1 trim_plain)
  have o2: "originalPrompt ?w2 = Some (lit ''make it red'')"
    by (simp add: g2 awaiting_originalPrompt isImprovementRequest_def s1 trim_plain)
  have h2: "map prompt (history ?w2) = [lit ''make it red'', lit ''chart'']"
    by (simp add: g2 showGenerated_history_new historyPrompt_def awaiting_originalPrompt
        isImprovementRequest_def s1 trim_plain h1)
  have l1: "lastGeneratedCode ?w1 = Some sampleDocument" by (simp add: g1)
  have b1: "btnText ?w1 = lit ''Improve Visualization''" by (simp add: g1)
  show ?thesis using l1 b1 p1 p2 n2 o2 h2 by simp
qed

text \<open>
  C7, on the code. The completion resolves to the empty string. The promise resolves,
  the error panel shows \<open>AI returned empty response\<close>, \<open>onError\<close> gets the
  \<open>AIDataVisualizationError\<close> of type \<open>INVALID_HTML_RESPONSE\<close> with that message, the
  history and the durable record are as before; and \<open>getState\<close> returns \<open>IDLE\<close>, not
  \<open>ERROR\<close>.
\<close>

theorem empty_answer_state:
  "fst (generateVisualization emptyAnswerConfig 7 (inputText (lit ''chart'') freshWidget))
     = Resolved \<and>
   getState (snd (generateVisualization emptyAnswerConfig 7 (inputText (lit ''chart'') freshWidget)))
     = IDLE \<and>
   errorsReported
     (snd (generateVisualization emptyAnswerConfig 7 (inputText (lit ''chart'') freshWidget)))
     = [AIDataVisualizationError INVALID_HTML_RESPONSE (lit ''AI returned empty response'')] \<and>
   errorText (snd (generateVisualization emptyAnswerConfig 7 (inputText (lit ''chart'') freshWidget)))
     = lit ''AI returned empty response'' \<and>
   history (snd (generateVisualization emptyAnswerConfig 7 (inputText (lit ''chart'') freshWidget)))
     = history freshWidget \<and>
   localStorage
     (snd (generateVisualization emptyAnswerConfig 7 (inputText (lit ''chart'') freshWidget)))
     = localStorage freshWidget"
proof -
  let ?w = "inputText (lit ''chart'') freshWidget"
  let ?e = "AIDataVisualizationError INVALID_HTML_RESPONSE (lit ''AI returned empty response'')"
  have g: "generateVisualization emptyAnswerConfig 7 ?w =
           catchGenerationError emptyAnswerConfig ?e (awaitingCompletion emptyAnswerConfig ?w)"
    by (simp add: generate_unfold trim_plain afterCompletion_def)
  show ?thesis
    by (simp add: g getState_def catch_reported catch_settles)
qed

lemma handleApiRequest_settles: "fst (handleApiRequest cfg ident u w) = Resolved"
  by (simp add: handleApiRequest_def split: callOutcome.splits)

lemma after_failure:
  "outcome = Rejects e \<or> outcome = Throws e \<Longrightarrow>
   afterCompletion cfg now w outcome = catchGenerationError cfg e (awaitingCompletion cfg w)"
  by (auto simp: afterCompletion_def)

subsection \<open>A host action in the middle of a generation\<close>

lemma interleaved_unfold:
  assumes "mounted w" and "trim (textareaValue w) \<noteq> []"
  shows "generateInterleaved cfg now during w =
         (case callChatCompletion cfg (nextPrompt cfg w) of
            Resolves raw \<Rightarrow>
              resumeGeneration cfg now (isImprovementRequest w) (trim (textareaValue w))
                (Resolves raw) (during (awaitingCompletion cfg w))
          | Rejects e \<Rightarrow>
              resumeGeneration cfg now (isImprovementRequest w) (trim (textareaValue w))
                (Rejects e) (during (awaitingCompletion cfg w))
          | Throws e \<Rightarrow> catchGenerationError cfg e (awaitingCompletion cfg w))"
  using assms
  by (cases "isImprovementRequest w"; cases "callChatCompletion cfg (nextPrompt cfg w)")
     (simp_all add: generateInterleaved_def awaitingCompletion_def nextPrompt_def Let_def
        hideError_def existingCode_def)


lemma resume_unmounted:
  "\<not> mounted v \<Longrightarrow> resumeGeneration cfg now imp m outcome v = (RejectedWith nullPropertyError, v)"
  by (simp add: resumeGeneration_def)


lemma handleApiRequestInterleaved_sequential:
  "handleApiRequestInterleaved cfg ident u (\<lambda>v. v) w = handleApiRequest cfg ident u w"
  by (simp add: handleApiRequestInterleaved_def handleApiRequest_def split: callOutcome.splits)






text \<open>
  It fails as well where the instance is destroyed while the completion is pending, and
  there \<open>onError\<close> is not even called: the rest of the method finds no subtree.
\<close>

lemma destroy_while_pending_rejects:
  "fst (generateInterleaved sampleConfig 7 destroy (inputText (lit ''chart'') freshWidget)) =
     RejectedWith nullPropertyError \<and>
   errorsReported
     (snd (generateInterleaved sampleConfig 7 destroy (inputText (lit ''chart'') freshWidget))) = []"
proof -
  let ?u = "inputText (lit ''chart'') freshWidget"
  have "\<not> mounted (destroy (awaitingCompletion sampleConfig ?u))" by (simp add: destroy_def)
  then have "generateInterleaved sampleConfig 7 destroy ?u =
             (RejectedWith nullPropertyError, destroy (awaitingCompletion sampleConfig ?u))"
    by (simp add: interleaved_unfold trim_plain resume_unmounted)
  then show ?thesis by (simp add: destroy_def)
qed

lemma destroyed_generate_rejects:
  "fst (generateVisualization cfg now (destroy w)) = RejectedWith nullPropertyError"
  by (simp add: generateVisualization_def destroy_def)

subsection \<open>Clearing\<close>

lemma reachable_fresh: "reachable sampleConfig freshWidget"
  unfolding reachable_def
  by (rule exI [of _ "\<lambda>sel. True"], rule exI [of _ False], rule exI [of _ Missing],
      rule exI [of _ freshWidget], rule exI [of _ "[]"])
     (simp add: create_sample performAll_def)

lemma reachable_perform: "reachable cfg w \<Longrightarrow> reachable cfg (perform cfg a w)"
  unfolding reachable_def
proof (elim exE conjE)
  fix found fails stored w0 actions
  assume c: "create found fails stored cfg = Inr w0" and w: "w = performAll cfg actions w0"
  have "perform cfg a w = performAll cfg (actions @ [a]) w0"
    by (simp add: w performAll_def)
  then show "\<exists>found fails stored w0 actions.
               create found fails stored cfg = Inr w0 \<and> perform cfg a w = performAll cfg actions w0"
    using c by blast
qed

text \<open>
  C10. Clearing the visualization of a mounted instance drops the stored artifact, the
  original prompt, the improvement prompts and the active history index, leaves
  \<open>getState\<close> at \<open>IDLE\<close>, and leaves the history list and the durable record exactly
  as they were. It is \<open>clearHistory\<close> that empties the list and removes the record
  (unless the storage refuses).
\<close>

theorem clear_keeps_history:
  assumes "reachable cfg w" and "mounted w"
  shows "\<exists>v. clearVisualization w = Inr v \<and>
           lastGeneratedCode v = None \<and> originalPrompt v = None \<and>
           improvementPrompts v = [] \<and> activeHistoryIndex v = None \<and>
           getState v = IDLE \<and> btnText v = lit ''Generate Visualization'' \<and>
           history v = history w \<and> localStorage v = localStorage w \<and>
           history (clearHistory w) = [] \<and>
           localStorage (clearHistory w) = (if storageFails w then localStorage w else Missing)"
  using assms(2) reachable_state [OF assms(1)]
  by (simp add: clearVisualization_def Let_def hideError_def getState_def clearHistory_def
      removePersisted_def)

theorem clear_keeps_history_witness:
  "\<exists>v. clearVisualization
          (snd (generateVisualization sampleConfig 7 (inputText (lit ''chart'') freshWidget)))
        = Inr v \<and>
        lastGeneratedCode v = None \<and> getState v = IDLE \<and>
        history v = [\<lparr>prompt = lit ''chart'', html = sampleDocument, timestamp = 7\<rparr>] \<and>
        localStorage v = Stored [\<lparr>prompt = lit ''chart'', html = sampleDocument, timestamp = 7\<rparr>]"
proof -
  let ?u = "inputText (lit ''chart'') freshWidget"
  let ?w = "snd (generateVisualization sampleConfig 7 ?u)"
  have "reachable sampleConfig
          (perform sampleConfig (Generate 7)
             (perform sampleConfig (InputText (lit ''chart'')) freshWidget))"
    by (intro reachable_perform reachable_fresh)
  then have r: "reachable sampleConfig ?w" by simp
  have m: "mounted ?w" by simp
  have g: "generateVisualization sampleConfig 7 ?u =
            (Resolved, showGenerated False (lit ''chart'') sampleDocument 7
                         (awaitingCompletion sampleConfig ?u))"
    using generate_sample [of ?u 7] by (simp add: trim_plain)
  have h: "history ?w = [\<lparr>prompt = lit ''chart'', html = sampleDocument, timestamp = 7\<rparr>]"
    by (simp add: g showGenerated_history_new historyPrompt_def awaiting_originalPrompt
        isImprovementRequest_def trim_plain)
  have s: "localStorage ?w = Stored [\<lparr>prompt = lit ''chart'', html = sampleDocument, timestamp = 7\<rparr>]"
    by (simp add: g showGenerated_def Let_def displayVisualization_def saveHistory_def
        persistHistory_def historyPrompt_def awaiting_originalPrompt isImprovementRequest_def
        trim_plain)
  from clear_keeps_history [OF r m] h s show ?thesis by auto
qed

subsection \<open>General form of the three outcomes\<close>

lemma sanitize_blank: "list_all isWhiteSpace raw \<Longrightarrow> sanitizeHtmlResponse raw = []"
proof -
  assume "list_all isWhiteSpace raw"
  then have d: "dropWhile isWhiteSpace raw = []"
    unfolding dropWhile_eq_Nil_conv by (simp add: list_all_iff)
  have t: "trim raw = []" unfolding trim_def d by simp
  have "sanitizeHtmlResponse raw = sanitizeHtmlResponse []"
    by (simp only: sanitizeHtmlResponse_def t trim_idem)
       (simp add: trim_def)
  then show ?thesis by simp
qed

lemma sanitize_fence_only:
  assumes "list_all isWhiteSpace w" and "tag = [] \<or> length tag = 4 \<and> matchesHtml tag"
  shows "sanitizeHtmlResponse (fence @ tag @ w @ fence) = []"
proof -
  have "sanitizeHtmlResponse (wrapInFence tag w [] []) = []"
    by (rule sanitize_wrapped) (use assms in \<open>auto simp: trimmed_def matchesHtml_def fence_def\<close>)
  then show ?thesis by (simp add: wrapInFence_def)
qed

lemma generate_success:
  assumes "mounted w" and "trim (textareaValue w) \<noteq> []"
    and "callChatCompletion cfg (nextPrompt cfg w) = Resolves raw"
    and "sanitizeHtmlResponse raw \<noteq> []"
  shows "fst (generateVisualization cfg now w) = Resolved"
    and "lastGeneratedCode (snd (generateVisualization cfg now w)) = Some (sanitizeHtmlResponse raw)"
    and "srcdoc (snd (generateVisualization cfg now w)) = injectApiBridge (sanitizeHtmlResponse raw)"
    and "btnText (snd (generateVisualization cfg now w)) = lit ''Improve Visualization''"
    and "\<not> isImprovementRequest w \<Longrightarrow>
         history (snd (generateVisualization cfg now w)) =
           take 10 (\<lparr>prompt = trim (textareaValue w), html = sanitizeHtmlResponse raw,
                      timestamp = now\<rparr> # history w)"
proof -
  have g: "generateVisualization cfg now w =
           (Resolved, showGenerated (isImprovementRequest w) (trim (textareaValue w))
                        (sanitizeHtmlResponse raw) now (awaitingCompletion cfg w))"
    using assms by (simp add: generate_unfold afterCompletion_def)
  show "fst (generateVisualization cfg now w) = Resolved" by (simp add: g)
  show "lastGeneratedCode (snd (generateVisualization cfg now w)) = Some (sanitizeHtmlResponse raw)"
    by (simp add: g)
  show "srcdoc (snd (generateVisualization cfg now w)) = injectApiBridge (sanitizeHtmlResponse raw)"
    by (simp add: g)
  show "btnText (snd (generateVisualization cfg now w)) = lit ''Improve Visualization''"
    by (simp add: g)
  assume "\<not> isImprovementRequest w"
  then show "history (snd (generateVisualization cfg now w)) =
           take 10 (\<lparr>prompt = trim (textareaValue w), html = sanitizeHtmlResponse raw,
                      timestamp = now\<rparr> # history w)"
    using assms(2)
    by (simp add: g showGenerated_history_new historyPrompt_def awaiting_originalPrompt)
qed

lemma generate_empty_answer:
  assumes "mounted w" and "trim (textareaValue w) \<noteq> []"
    and "callChatCompletion cfg (nextPrompt cfg w) = Resolves raw"
    and "sanitizeHtmlResponse raw = []"
  shows "history (snd (generateVisualization cfg now w)) = history w"
    and "localStorage (snd (generateVisualization cfg now w)) = localStorage w"
    and "errorShown (snd (generateVisualization cfg now w))"
    and "errorText (snd (generateVisualization cfg now w)) = lit ''AI returned empty response''"
    and "errorsReported (snd (generateVisualization cfg now w)) =
           (case onError cfg of
              None \<Rightarrow> errorsReported w
            | Some handler \<Rightarrow>
                errorsReported w @
                [AIDataVisualizationError INVALID_HTML_RESPONSE (lit ''AI returned empty response'')])"
proof -
  have g: "generateVisualization cfg now w =
           catchGenerationError cfg
             (AIDataVisualizationError INVALID_HTML_RESPONSE (lit ''AI returned empty response''))
             (awaitingCompletion cfg w)"
    using assms by (simp add: generate_unfold afterCompletion_def)
  show "history (snd (generateVisualization cfg now w)) = history w" by (simp add: g)
  show "localStorage (snd (generateVisualization cfg now w)) = localStorage w" by (simp add: g)
  show "errorShown (snd (generateVisualization cfg now w))" by (simp add: g)
  show "errorText (snd (generateVisualization cfg now w)) = lit ''AI returned empty response''"
    by (simp add: g)
  show "errorsReported (snd (generateVisualization cfg now w)) =
           (case onError cfg of
              None \<Rightarrow> errorsReported w
            | Some handler \<Rightarrow>
                errorsReported w @
                [AIDataVisualizationError INVALID_HTML_RESPONSE (lit ''AI returned empty response'')])"
    by (simp add: g catch_reported split: option.splits)
qed

subsection \<open>The improvement branch\<close>

lemma promptHistory_all:
  "p \<noteq> [] \<Longrightarrow> list_all (\<lambda>q. q \<noteq> []) imps \<Longrightarrow>
   promptHistory (Some p) imps = joinLines (p # imps)"
  by (simp add: promptHistory_def list_all_iff filter_id_conv)

text \<open>
  Were the state field \<open>DISPLAYING\<close> with an artifact held, the prompt would be the
  improvement prompt, and it would hold the API description, the whole artifact and
  the joined requests, the new one last.
\<close>

lemma improvement_prompt_contents:
  assumes "state w = DISPLAYING" and "lastGeneratedCode w = Some code"
  shows "nextPrompt cfg w =
           buildImprovementPrompt (apiDescription cfg) (originalPrompt w)
             (improvementPrompts w @ [trim (textareaValue w)]) code"
    and "sublist (apiDescription cfg) (nextPrompt cfg w)"
    and "sublist code (nextPrompt cfg w)"
    and "sublist (promptHistory (originalPrompt w) (improvementPrompts w @ [trim (textareaValue w)]))
           (nextPrompt cfg w)"
proof -
  show n: "nextPrompt cfg w =
           buildImprovementPrompt (apiDescription cfg) (originalPrompt w)
             (improvementPrompts w @ [trim (textareaValue w)]) code"
    using assms by (simp add: nextPrompt_def isImprovementRequest_def existingCode_def)
  show "sublist (apiDescription cfg) (nextPrompt cfg w)"
    unfolding n buildImprovementPrompt_def by (rule sublist_appendI)
  have "sublist code ((improvementPromptHead @ apiDescription cfg @ improvementPromptCodeStart) @
          code @ (improvementPromptCodeEnd @
             promptHistory (originalPrompt w) (improvementPrompts w @ [trim (textareaValue w)]) @
             improvementPromptTail))"
    by (rule sublist_appendI)
  then show "sublist code (nextPrompt cfg w)"
    unfolding n buildImprovementPrompt_def by simp
  have "sublist (promptHistory (originalPrompt w) (improvementPrompts w @ [trim (textareaValue w)]))
          ((improvementPromptHead @ apiDescription cfg @ improvementPromptCodeStart @ code @
            improvementPromptCodeEnd) @
           promptHistory (originalPrompt w) (improvementPrompts w @ [trim (textareaValue w)]) @
           improvementPromptTail)"
    by (rule sublist_appendI)
  then show "sublist (promptHistory (originalPrompt w) (improvementPrompts w @ [trim (textareaValue w)]))
           (nextPrompt cfg w)"
    unfolding n buildImprovementPrompt_def by simp
qed

end
